theory Spec2Isabelle
  imports Complex_Main "HOL-Library.Sublist" "HOL-Library.Multiset"
begin

text \<open>
  A shallow embedding of the invoice splitter's pure parts and of the control flow around
  them: the \<open>numberLike\<close> and \<open>optionalString\<close> coercions and the line-item schema of the
  record normalizer, the table-hint deriver with its header normalization and keyword
  score, the client's status-polling loop, and the API router with its \<open>SPLIT_ONLY\<close>
  toggle. The definitions come first, the facts about them after.
\<close>

section \<open>Strings of the runtime\<close>

text \<open>
  A string is a list of code units. The model covers the code units below 256 (type
  \<^typ>\<open>char\<close>), read as the first 256 code points. \<open>isWhiteSpace\<close> is the class that
  \<open>\s\<close>, \<open>trim()\<close> and \<open>Number()\<close> share there: tab, line feed, vertical tab, form feed,
  carriage return, space and the no-break space. \<open>isDigit\<close> is \<open>\d\<close>.
\<close>

definition isWhiteSpace :: "char \<Rightarrow> bool" where
  "isWhiteSpace c = (c \<in> set [CHR 0x09, CHR 0x0A, CHR 0x0B, CHR 0x0C, CHR 0x0D, CHR 0x20, CHR 0xA0])"

definition isDigit :: "char \<Rightarrow> bool" where
  "isDigit c = (c \<in> set ''0123456789'')"

definition trimStart :: "string \<Rightarrow> string" where
  "trimStart s = dropWhile isWhiteSpace s"

definition trimEnd :: "string \<Rightarrow> string" where
  "trimEnd s = rev (dropWhile isWhiteSpace (rev s))"

definition trim :: "string \<Rightarrow> string" where
  "trim s = trimEnd (trimStart s)"

section \<open>Numbers of the runtime\<close>

text \<open>
  A number is NaN, an infinity or finite. \<open>Finite q\<close> stands for the double nearest to
  the rational \<open>q\<close>; \<open>q\<close> is kept unrounded except where rounding changes the class of
  the number: a magnitude of at least \<open>2^1024 - 2^970\<close> rounds to an infinity, one of at
  most \<open>2^-1075\<close> to zero. The sign of zero is not modelled.
\<close>

datatype jsnumber = Finite rat | NaN | PosInfinity | NegInfinity

definition isFinite :: "jsnumber \<Rightarrow> bool" where
  "isFinite n = (case n of Finite _ \<Rightarrow> True | _ \<Rightarrow> False)"

definition roundToDouble :: "rat \<Rightarrow> jsnumber" where
  "roundToDouble q =
     (if 2 ^ 1024 - 2 ^ 970 \<le> \<bar>q\<bar> then (if 0 < q then PosInfinity else NegInfinity)
      else if \<bar>q\<bar> \<le> 1 / 2 ^ 1075 then Finite 0
      else Finite q)"

definition negate :: "jsnumber \<Rightarrow> jsnumber" where
  "negate n = (case n of Finite q \<Rightarrow> Finite (- q) | NaN \<Rightarrow> NaN
                | PosInfinity \<Rightarrow> NegInfinity | NegInfinity \<Rightarrow> PosInfinity)"

subsection \<open>\<open>Number(string)\<close>: the StringNumericLiteral grammar\<close>

definition digitValue :: "char \<Rightarrow> nat" where
  "digitValue c =
     (if c \<in> set ''0123456789'' then of_char c - 48
      else if c \<in> set ''abcdef'' then of_char c - 87
      else if c \<in> set ''ABCDEF'' then of_char c - 55
      else 0)"

definition isDigitOfBase :: "nat \<Rightarrow> char \<Rightarrow> bool" where
  "isDigitOfBase b c =
     ((c \<in> set ''0123456789'' \<or> c \<in> set ''abcdef'' \<or> c \<in> set ''ABCDEF'') \<and> digitValue c < b)"

definition digitsValue :: "nat \<Rightarrow> string \<Rightarrow> nat" where
  "digitsValue b ds = foldl (\<lambda>acc c. acc * b + digitValue c) 0 ds"

definition pow10 :: "int \<Rightarrow> rat" where
  "pow10 e = (if 0 \<le> e then 10 ^ nat e else 1 / 10 ^ nat (- e))"

text \<open>ExponentPart, optional: \<open>[eE][+-]?\d+\<close> up to the end of the text.\<close>

definition exponentPart :: "string \<Rightarrow> int option" where
  "exponentPart s =
     (case s of
        [] \<Rightarrow> Some 0
      | c # r \<Rightarrow>
          if c = CHR ''e'' \<or> c = CHR ''E'' then
            (case r of
               [] \<Rightarrow> None
             | d # ds \<Rightarrow>
                 if d = CHR ''-'' then
                   (if ds \<noteq> [] \<and> list_all isDigit ds then Some (- int (digitsValue 10 ds)) else None)
                 else if d = CHR ''+'' then
                   (if ds \<noteq> [] \<and> list_all isDigit ds then Some (int (digitsValue 10 ds)) else None)
                 else
                   (if list_all isDigit r then Some (int (digitsValue 10 r)) else None))
          else None)"

text \<open>StrUnsignedDecimalLiteral: \<open>Infinity\<close>, \<open>\d+(\.\d*)?\<close> or \<open>\.\d+\<close>, then the exponent.\<close>

definition strUnsignedDecimalLiteral :: "string \<Rightarrow> jsnumber" where
  "strUnsignedDecimalLiteral s =
     (if s = ''Infinity'' then PosInfinity
      else
        let ip = takeWhile isDigit s;
            r1 = dropWhile isDigit s;
            fp = (case r1 of [] \<Rightarrow> [] | c # t \<Rightarrow> if c = CHR ''.'' then takeWhile isDigit t else []);
            r2 = (case r1 of [] \<Rightarrow> [] | c # t \<Rightarrow> if c = CHR ''.'' then dropWhile isDigit t else r1)
        in if ip = [] \<and> fp = [] then NaN
           else (case exponentPart r2 of
                   None \<Rightarrow> NaN
                 | Some e \<Rightarrow>
                     roundToDouble (of_nat (digitsValue 10 (ip @ fp)) * pow10 (e - int (length fp)))))"

text \<open>NonDecimalIntegerLiteral: \<open>0x\<close>, \<open>0o\<close> or \<open>0b\<close> (either case) and at least one digit of the base.\<close>

definition nonDecimalIntegerLiteral :: "string \<Rightarrow> jsnumber option" where
  "nonDecimalIntegerLiteral s =
     (case s of
        z # p # ds \<Rightarrow>
          if z = CHR ''0'' \<and> p \<in> set ''xXoObB'' then
            (let b = (if p \<in> set ''xX'' then 16 else if p \<in> set ''oO'' then 8 else 2)
             in if ds \<noteq> [] \<and> list_all (isDigitOfBase b) ds
                then Some (roundToDouble (of_nat (digitsValue b ds))) else Some NaN)
          else None
      | _ \<Rightarrow> None)"

definition StringToNumber :: "string \<Rightarrow> jsnumber" where
  "StringToNumber str =
     (let s = trim str in
      if s = [] then Finite 0
      else (case nonDecimalIntegerLiteral s of
              Some n \<Rightarrow> n
            | None \<Rightarrow>
                (case s of
                   [] \<Rightarrow> Finite 0
                 | c # r \<Rightarrow>
                     if c = CHR ''-'' then negate (strUnsignedDecimalLiteral r)
                     else if c = CHR ''+'' then strUnsignedDecimalLiteral r
                     else strUnsignedDecimalLiteral s)))"

section \<open>RecordNormalizer: the coercions\<close>

subsection \<open>\<open>numberLike\<close>\<close>

text \<open>
  The result of a schema on a value is \<open>Invalid\<close> (an issue is raised) or \<open>Valid\<close> with the
  output.
\<close>

datatype 'a parse = Invalid | Valid 'a

text \<open>
  \<open>z.union([z.number(), z.string()])\<close>: the value offered is a number or a string, and the
  transform tells them apart by \<open>typeof v === 'number'\<close>.
\<close>

datatype jsinput = JNumber jsnumber | JString string

text \<open>
  The member \<open>z.number()\<close> of the union, as the library documents it: a finite number is
  admitted and NaN never is; an infinity is admitted by version 3 of the library and
  rejected by version 4, which the parameter \<open>admitsInfinity\<close> tells.
\<close>

definition zNumber :: "bool \<Rightarrow> jsnumber \<Rightarrow> bool" where
  "zNumber admitsInfinity n =
     (case n of Finite q \<Rightarrow> True | NaN \<Rightarrow> False
              | PosInfinity \<Rightarrow> admitsInfinity | NegInfinity \<Rightarrow> admitsInfinity)"

text \<open>\<open>.replace(/\s/g, '')\<close>\<close>

definition removeWhiteSpace :: "string \<Rightarrow> string" where
  "removeWhiteSpace s = filter (\<lambda>c. \<not> isWhiteSpace c) s"

text \<open>The lookahead \<open>(?=\d{3}(\D|$))\<close> on the text after a separator.\<close>

fun threeDigitsThenBoundary :: "string \<Rightarrow> bool" where
  "threeDigitsThenBoundary (a # b # c # rest) =
     (isDigit a \<and> isDigit b \<and> isDigit c \<and> (case rest of [] \<Rightarrow> True | d # _ \<Rightarrow> \<not> isDigit d))"
| "threeDigitsThenBoundary _ = False"

text \<open>\<open>.replace(/,(?=\d{3}(\D|$))/g, '')\<close> and the same with \<open>\.\<close>, the separator a parameter.\<close>

fun dropThousands :: "char \<Rightarrow> string \<Rightarrow> string" where
  "dropThousands sep [] = []"
| "dropThousands sep (c # rest) =
     (if c = sep \<and> threeDigitsThenBoundary rest then dropThousands sep rest
      else c # dropThousands sep rest)"

text \<open>\<open>.replace(/,(\d{1,2})$/g, '.$1')\<close>: the leftmost comma that one or two digits and the end follow.\<close>

fun oneOrTwoDigitsThenEnd :: "string \<Rightarrow> bool" where
  "oneOrTwoDigitsThenEnd [a] = isDigit a"
| "oneOrTwoDigitsThenEnd [a, b] = (isDigit a \<and> isDigit b)"
| "oneOrTwoDigitsThenEnd _ = False"

fun decimalComma :: "string \<Rightarrow> string" where
  "decimalComma [] = []"
| "decimalComma (c # rest) =
     (if c = CHR '','' \<and> oneOrTwoDigitsThenEnd rest then CHR ''.'' # rest
      else c # decimalComma rest)"

definition normalizeSeparators :: "string \<Rightarrow> string" where
  "normalizeSeparators s =
     decimalComma (dropThousands (CHR ''.'') (dropThousands (CHR '','') (removeWhiteSpace s)))"

text \<open>The callback of \<open>transform\<close>.\<close>

definition numberLikeTransform :: "jsinput \<Rightarrow> jsnumber option" where
  "numberLikeTransform v =
     (case v of
        JNumber n \<Rightarrow> Some n
      | JString str \<Rightarrow>
          (let s = trim str in
           if s = [] then None
           else (let n = StringToNumber (normalizeSeparators s)
                 in if isFinite n then Some n else None)))"

text \<open>
  The schema \<open>numberLike\<close>: the union runs before the transform. A number that
  \<open>z.number()\<close> rejects is not a string either, so the union raises an issue and the
  transform does not run; every string passes \<open>z.string()\<close>.
\<close>

definition numberLike :: "bool \<Rightarrow> jsinput \<Rightarrow> jsnumber option parse" where
  "numberLike admitsInfinity v =
     (case v of
        JNumber n \<Rightarrow> if zNumber admitsInfinity n then Valid (numberLikeTransform v) else Invalid
      | JString str \<Rightarrow> Valid (numberLikeTransform v))"

subsection \<open>Raw extraction values and the schema combinators\<close>

text \<open>
  The raw extraction output is JSON, so its numbers are finite. A field is looked up in
  the raw record; \<open>None\<close> is a key that is missing, which the schema sees as \<open>undefined\<close>.
\<close>

datatype json = JNull | JBool bool | JNum rat | JStr string | JArray "json list"
  | JObject "(string \<times> json) list"

text \<open>\<open>z.string().optional()\<close>\<close>

definition zStringOptional :: "json option \<Rightarrow> string option parse" where
  "zStringOptional v =
     (case v of None \<Rightarrow> Valid None | Some (JStr s) \<Rightarrow> Valid (Some s) | Some _ \<Rightarrow> Invalid)"

text \<open>
  \<open>numberLike.optional()\<close> on a raw value: \<open>undefined\<close> stays \<open>undefined\<close>; a JSON number is
  finite, which \<open>z.number()\<close> admits in either version, and a string passes \<open>z.string()\<close>,
  so on both the union hands the value to the transform; any other value is an issue.
\<close>

definition numberLikeOptional :: "json option \<Rightarrow> jsnumber option parse" where
  "numberLikeOptional v =
     (case v of
        None \<Rightarrow> Valid None
      | Some (JNum q) \<Rightarrow> Valid (numberLikeTransform (JNumber (Finite q)))
      | Some (JStr s) \<Rightarrow> Valid (numberLikeTransform (JString s))
      | Some _ \<Rightarrow> Invalid)"

subsection \<open>\<open>optionalString\<close>\<close>

text \<open>
  The text that \<open>String(v)\<close> returns: a string is returned as it is, and \<open>NumberToString q\<close>
  stands for the decimal text the runtime prints for the number \<open>q\<close>.
\<close>

datatype jstext = Literal string | NumberToString rat

text \<open>
  \<open>z.union([z.string(), z.number()]).transform(v => v === undefined || v === null ?
  undefined : String(v)).optional()\<close>: \<open>optional\<close> answers \<open>undefined\<close> by \<open>undefined\<close>; the
  union admits a string or a number, neither of which is \<open>undefined\<close> or \<open>null\<close>, so the
  transform returns \<open>String(v)\<close> on them; every other value is an issue.
\<close>

definition optionalString :: "json option \<Rightarrow> jstext option parse" where
  "optionalString v =
     (case v of
        None \<Rightarrow> Valid None
      | Some (JStr s) \<Rightarrow> Valid (Some (Literal s))
      | Some (JNum q) \<Rightarrow> Valid (Some (NumberToString q))
      | Some _ \<Rightarrow> Invalid)"

subsection \<open>The line-item schema\<close>

record lineItem =
  productCode :: "string option"
  description :: "string option"
  hsCode :: "string option"
  originCountry :: "string option"
  farePreference :: "string option"
  totalAmount :: "jsnumber option"
  netWeight :: "jsnumber option"
  grossWeight :: "jsnumber option"
  quantity :: "jsnumber option"
  UOM :: "string option"
  itemType :: "string option"
  rate :: "jsnumber option"
  baseAmount :: "jsnumber option"
  currency :: "string option"
  category :: "string option"

text \<open>
  The shape of the object schema, in the order of the source; the field \<open>type\<close> of the
  source is the record field \<open>itemType\<close>.
\<close>

datatype fieldKind = StringField | NumberField

definition lineItemShape :: "(string \<times> fieldKind) list" where
  "lineItemShape =
     [(''productCode'', StringField), (''description'', StringField), (''hsCode'', StringField),
      (''originCountry'', StringField), (''farePreference'', StringField),
      (''totalAmount'', NumberField), (''netWeight'', NumberField), (''grossWeight'', NumberField),
      (''quantity'', NumberField), (''UOM'', StringField), (''type'', StringField),
      (''rate'', NumberField), (''baseAmount'', NumberField), (''currency'', StringField),
      (''category'', StringField)]"

definition fieldValid :: "fieldKind \<Rightarrow> json option \<Rightarrow> bool" where
  "fieldValid k v =
     (case k of StringField \<Rightarrow> zStringOptional v \<noteq> Invalid
              | NumberField \<Rightarrow> numberLikeOptional v \<noteq> Invalid)"

definition stringOut :: "json option \<Rightarrow> string option" where
  "stringOut v = (case zStringOptional v of Valid r \<Rightarrow> r | Invalid \<Rightarrow> None)"

definition numberOut :: "json option \<Rightarrow> jsnumber option" where
  "numberOut v = (case numberLikeOptional v of Valid r \<Rightarrow> r | Invalid \<Rightarrow> None)"

text \<open>
  \<open>z.object({...})\<close> on one raw line item: every field of the shape is checked and the
  paths of all the fields that fail are reported together; a key outside the shape is
  dropped. A value that is not an object fails at the root path.
\<close>

definition validateLineItem :: "json \<Rightarrow> string list + lineItem" where
  "validateLineItem v =
     (case v of
        JObject entries \<Rightarrow>
          (let get = map_of entries;
               issues = map fst (filter (\<lambda>(k, kind). \<not> fieldValid kind (get k)) lineItemShape)
           in if issues \<noteq> [] then Inl issues
              else Inr \<lparr>productCode = stringOut (get ''productCode''),
                        description = stringOut (get ''description''),
                        hsCode = stringOut (get ''hsCode''),
                        originCountry = stringOut (get ''originCountry''),
                        farePreference = stringOut (get ''farePreference''),
                        totalAmount = numberOut (get ''totalAmount''),
                        netWeight = numberOut (get ''netWeight''),
                        grossWeight = numberOut (get ''grossWeight''),
                        quantity = numberOut (get ''quantity''),
                        UOM = stringOut (get ''UOM''),
                        itemType = stringOut (get ''type''),
                        rate = numberOut (get ''rate''),
                        baseAmount = numberOut (get ''baseAmount''),
                        currency = stringOut (get ''currency''),
                        category = stringOut (get ''category'')\<rparr>)
      | _ \<Rightarrow> Inl [[]])"

text \<open>A value of the field \<open>type\<close> that \<open>z.string().optional()\<close> admits: a string, or none.\<close>

definition stringOrMissing :: "json option \<Rightarrow> bool" where
  "stringOrMissing v = (case v of None \<Rightarrow> True | Some (JStr s) \<Rightarrow> True | Some _ \<Rightarrow> False)"

section \<open>TableHintDeriver\<close>

subsection \<open>\<open>norm\<close>: header cell text\<close>

text \<open>
  \<open>toLowerCase\<close> on the code units below 256: A to Z and the capital letters from
  \<open>0xC0\<close> to \<open>0xDE\<close> (the multiplication sign \<open>0xD7\<close> apart) map to the letter
  32 places up; every other code unit stays.
\<close>

definition upperChars :: "string" where
  "upperChars = ''ABCDEFGHIJKLMNOPQRSTUVWXYZ'' @
     [CHR 0xC0, CHR 0xC1, CHR 0xC2, CHR 0xC3, CHR 0xC4, CHR 0xC5, CHR 0xC6, CHR 0xC7,
      CHR 0xC8, CHR 0xC9, CHR 0xCA, CHR 0xCB, CHR 0xCC, CHR 0xCD, CHR 0xCE, CHR 0xCF,
      CHR 0xD0, CHR 0xD1, CHR 0xD2, CHR 0xD3, CHR 0xD4, CHR 0xD5, CHR 0xD6,
      CHR 0xD8, CHR 0xD9, CHR 0xDA, CHR 0xDB, CHR 0xDC, CHR 0xDD, CHR 0xDE]"

definition lowerChars :: "string" where
  "lowerChars = ''abcdefghijklmnopqrstuvwxyz'' @
     [CHR 0xE0, CHR 0xE1, CHR 0xE2, CHR 0xE3, CHR 0xE4, CHR 0xE5, CHR 0xE6, CHR 0xE7,
      CHR 0xE8, CHR 0xE9, CHR 0xEA, CHR 0xEB, CHR 0xEC, CHR 0xED, CHR 0xEE, CHR 0xEF,
      CHR 0xF0, CHR 0xF1, CHR 0xF2, CHR 0xF3, CHR 0xF4, CHR 0xF5, CHR 0xF6,
      CHR 0xF8, CHR 0xF9, CHR 0xFA, CHR 0xFB, CHR 0xFC, CHR 0xFD, CHR 0xFE]"

definition lowerChar :: "char \<Rightarrow> char" where
  "lowerChar c = (case map_of (zip upperChars lowerChars) c of None \<Rightarrow> c | Some l \<Rightarrow> l)"

definition toLowerCase :: "string \<Rightarrow> string" where
  "toLowerCase s = map lowerChar s"

text \<open>The character class \<open>[a-z0-9%]\<close>.\<close>

definition isHeaderChar :: "char \<Rightarrow> bool" where
  "isHeaderChar c = (c \<in> set ''abcdefghijklmnopqrstuvwxyz0123456789%'')"

text \<open>\<open>.replace(/[^a-z0-9%]/g, ' ')\<close>\<close>

definition replaceNonHeaderChars :: "string \<Rightarrow> string" where
  "replaceNonHeaderChars s = map (\<lambda>c. if isHeaderChar c then c else CHR '' '') s"

text \<open>\<open>.replace(/\s+/g, ' ')\<close>: every maximal run of white space becomes one space.\<close>

function collapseWhiteSpace :: "string \<Rightarrow> string" where
  "collapseWhiteSpace [] = []"
| "collapseWhiteSpace (c # cs) =
     (if isWhiteSpace c then CHR '' '' # collapseWhiteSpace (dropWhile isWhiteSpace cs)
      else c # collapseWhiteSpace cs)"
  by pat_completeness auto
termination
  by (relation "measure length") (auto simp: less_Suc_eq_le length_dropWhile_le)

text \<open>
  \<open>String(text || '')\<close> is the text itself on a string (the empty string is the only
  falsy one), which is what \<open>scoreHeader\<close> passes.
\<close>

definition norm_text :: "string \<Rightarrow> string" where
  "norm_text text = trim (collapseWhiteSpace (replaceNonHeaderChars (toLowerCase text)))"

subsection \<open>\<open>scoreHeader\<close>\<close>

definition HEADER_PATTERNS :: "string list list" where
  "HEADER_PATTERNS =
     [[''code'', ''sku'', ''item'', ''product'', ''reference''],
      [''desc'', ''description'', ''details'', ''service'', ''charge''],
      [''qty'', ''quantity'', ''qte'', ''units''],
      [''price'', ''unit price'', ''unit'', ''rate'', ''cost''],
      [''amount'', ''total'', ''sum'', ''subtotal'', ''value'', ''fee''],
      [''tax'', ''vat'', ''tva'', ''duty'', ''tariff''],
      [''shipping'', ''freight'', ''delivery'', ''transport''],
      [''discount'', ''rebate'', ''reduction'', ''credit'']]"

text \<open>\<open>h.includes(g)\<close>: \<open>g\<close> occurs in \<open>h\<close> at some position.\<close>

fun str_includes :: "string \<Rightarrow> string \<Rightarrow> bool" where
  "str_includes [] g = (g = [])"
| "str_includes (c # cs) g = (prefix g (c # cs) \<or> str_includes cs g)"

definition scoreHeader :: "string list \<Rightarrow> nat" where
  "scoreHeader headers =
     (let hNorm = map norm_text headers
      in foldl (\<lambda>score group.
                  if list_ex (\<lambda>h. list_ex (\<lambda>g. str_includes h g) group) hNorm then score + 1 else score)
               0 HEADER_PATTERNS)"

subsection \<open>\<open>deriveProductTableHints\<close>\<close>

record cell =
  rowIndex :: int
  columnIndex :: int
  content :: "string option"

record table =
  cells :: "cell list option"

record layout =
  tables :: "table list option"

record hint =
  tableIndex :: nat
  headers :: "string list"
  score :: nat

record derived =
  glossary :: string
  hints :: "hint list"

text \<open>\<open>Array.prototype.join\<close>\<close>

fun join :: "string \<Rightarrow> string list \<Rightarrow> string" where
  "join sep [] = []"
| "join sep [x] = x"
| "join sep (x # y # ys) = x @ sep @ join sep (y # ys)"

text \<open>The decimal digits of an index, as the template literal prints it.\<close>

fun natToString :: "nat \<Rightarrow> string" where
  "natToString n =
     (if n < 10 then [''0123456789'' ! n]
      else natToString (n div 10) @ [''0123456789'' ! (n mod 10)])"

declare natToString.simps [simp del]

text \<open>\<open>c.content || ''\<close>\<close>

definition contentOrEmpty :: "cell \<Rightarrow> string" where
  "contentOrEmpty c = (case content c of None \<Rightarrow> [] | Some s \<Rightarrow> s)"

text \<open>
  The body of \<open>tables.forEach\<close>, on the two arrays it pushes to. The comparator
  \<open>a.columnIndex - b.columnIndex\<close> under the runtime's stable sort is the stable sort on
  the key \<open>columnIndex\<close>.
\<close>

definition tableStep :: "nat \<Rightarrow> table \<Rightarrow> string list \<times> hint list \<Rightarrow> string list \<times> hint list" where
  "tableStep idx tbl acc =
     (case cells tbl of
        None \<Rightarrow> acc
      | Some cs \<Rightarrow>
          if cs = [] then acc
          else
            (let headerCells = filter (\<lambda>c. rowIndex c = 0) cs
             in if headerCells = [] then acc
                else
                  (let hdrs = map contentOrEmpty (sort_key columnIndex headerCells);
                       sc = scoreHeader hdrs;
                       headerStr = join '', '' hdrs
                   in (fst acc @ [''Table '' @ natToString (idx + 1) @ '' with headers: '' @ headerStr],
                       snd acc @ [\<lparr>tableIndex = idx, headers = hdrs, score = sc\<rparr>]))))"

fun forEachTable :: "nat \<Rightarrow> table list \<Rightarrow> string list \<times> hint list \<Rightarrow> string list \<times> hint list" where
  "forEachTable idx [] acc = acc"
| "forEachTable idx (t # ts) acc = forEachTable (idx + 1) ts (tableStep idx t acc)"

text \<open>\<open>layout.tables || []\<close>\<close>

definition tablesOf :: "layout \<Rightarrow> table list" where
  "tablesOf l = (case tables l of None \<Rightarrow> [] | Some ts \<Rightarrow> ts)"

definition deriveProductTableHints :: "layout \<Rightarrow> derived" where
  "deriveProductTableHints l =
     (let acc = forEachTable 0 (tablesOf l) ([], [])
      in \<lparr>glossary = join ('' '' @ [CHR 0x0A] @ '' '') (fst acc), hints = snd acc\<rparr>)"

subsection \<open>Notions the statements use\<close>

definition hasHeaderRow :: "table \<Rightarrow> bool" where
  "hasHeaderRow t = (case cells t of None \<Rightarrow> False | Some cs \<Rightarrow> list_ex (\<lambda>c. rowIndex c = 0) cs)"

definition headerCellsOf :: "table \<Rightarrow> cell list" where
  "headerCellsOf t = (case cells t of None \<Rightarrow> [] | Some cs \<Rightarrow> filter (\<lambda>c. rowIndex c = 0) cs)"

definition glossaryEntry :: "hint \<Rightarrow> string" where
  "glossaryEntry h =
     ''Table '' @ natToString (tableIndex h + 1) @ '' with headers: '' @ join '', '' (headers h)"

text \<open>The hint of the table at position \<open>idx\<close>, when the table has a header row.\<close>

definition hintOf :: "nat \<Rightarrow> table \<Rightarrow> hint" where
  "hintOf idx t =
     (let hdrs = map contentOrEmpty (sort_key columnIndex (headerCellsOf t))
      in \<lparr>tableIndex = idx, headers = hdrs, score = scoreHeader hdrs\<rparr>)"

text \<open>The hints of the tables \<open>ts\<close> that have a header row, \<open>ts\<close> standing at position \<open>idx\<close>.\<close>

definition emitted :: "nat \<Rightarrow> table list \<Rightarrow> hint list" where
  "emitted idx ts =
     map (\<lambda>p. hintOf (fst p) (snd p))
       (filter (\<lambda>p. hasHeaderRow (snd p)) (zip [idx..<idx + length ts] ts))"

text \<open>The separator of the glossary: a space, a line feed, a space.\<close>

definition glossarySeparator :: string where
  "glossarySeparator = '' '' @ [CHR 0x0A] @ '' ''"

text \<open>The maximal non-empty runs of elements that satisfy \<open>P\<close>.\<close>

function tokens :: "('a \<Rightarrow> bool) \<Rightarrow> 'a list \<Rightarrow> 'a list list" where
  "tokens P [] = []"
| "tokens P (x # xs) =
     (if P x then (x # takeWhile P xs) # tokens P (dropWhile P xs) else tokens P xs)"
  by pat_completeness auto
termination
  by (relation "measure (\<lambda>(P, xs). length xs)") (auto simp: less_Suc_eq_le length_dropWhile_le)

text \<open>
  The normalization as the specification words it: lowercase, strip every character
  other than letters, digits and percent signs (white space kept, to be collapsed),
  collapse white space.
\<close>

definition normStripped :: "string \<Rightarrow> string" where
  "normStripped text =
     collapseWhiteSpace (filter (\<lambda>c. isHeaderChar c \<or> isWhiteSpace c) (toLowerCase text))"

subsection \<open>A layout to evaluate on\<close>

text \<open>
  Four tables: a header row given out of column order with one cell lacking content, a
  table whose cells all lie below row 0, a table without cells, and a header row that no
  keyword matches.
\<close>

definition tableQty :: table where
  "tableQty = \<lparr>cells = Some
     [\<lparr>rowIndex = 0, columnIndex = 1, content = Some ''Qty''\<rparr>,
      \<lparr>rowIndex = 0, columnIndex = 0, content = None\<rparr>,
      \<lparr>rowIndex = 1, columnIndex = 0, content = Some ''x''\<rparr>]\<rparr>"

definition tableBody :: table where
  "tableBody = \<lparr>cells = Some [\<lparr>rowIndex = 1, columnIndex = 0, content = Some ''x''\<rparr>]\<rparr>"

definition tableNoCells :: table where
  "tableNoCells = \<lparr>cells = None\<rparr>"

definition tableUnlabelled :: table where
  "tableUnlabelled = \<lparr>cells = Some [\<lparr>rowIndex = 0, columnIndex = 0, content = Some ''???''\<rparr>]\<rparr>"

definition exampleLayout :: layout where
  "exampleLayout = \<lparr>tables = Some [tableQty, tableBody, tableNoCells, tableUnlabelled]\<rparr>"

section \<open>StatusReporter: the client polling loop\<close>

record config =
  pollInterval :: nat
  maxPollAttempts :: nat
  autoRefreshEnabled :: bool

definition defaultConfig :: config where
  "defaultConfig = \<lparr>pollInterval = 8000, maxPollAttempts = 45, autoRefreshEnabled = True\<rparr>"

text \<open>
  What one status request gives: \<open>api.request\<close> throws (no connection, or a response that
  is not OK), or returns the body with its \<open>success\<close> flag and \<open>data.status\<close>. The server
  is the reply it gives to each request, counted from 0.
\<close>

datatype reply = Throws | Reply bool string

definition finalStatuses :: "string list" where
  "finalStatuses = [''COMPLETED'', ''ERROR'', ''SPLIT_PROPOSED'', ''DATA_VALIDATION_PENDING'']"

text \<open>
  How a run ends: on a final status, on the attempt bound (the callback gets \<open>TIMEOUT\<close>),
  in the \<open>catch\<close> branch, on a body whose \<open>success\<close> is false (nothing is scheduled again),
  or at once when auto-refresh is off.
\<close>

datatype pollEnd = Final string | TimedOut | Errored | Unsuccessful | Disabled

text \<open>
  A run: how it ended, the number of status requests issued, the delays of the
  \<open>setTimeout(poll, ...)\<close> calls in order, and the statuses read.
\<close>

record pollRun =
  ending :: pollEnd
  requests :: nat
  delays :: "nat list"
  seen :: "string list"

text \<open>
  The closure \<open>poll\<close>, one activation per timer expiry: \<open>attempts\<close> is its captured
  counter, \<open>k\<close> the number of requests issued before this one. The callbacks are taken
  not to throw.
\<close>

function poll :: "config \<Rightarrow> nat \<Rightarrow> (nat \<Rightarrow> reply) \<Rightarrow> nat \<Rightarrow> nat \<Rightarrow> nat list \<Rightarrow> string list \<Rightarrow> pollRun" where
  "poll cfg maxAttempts server attempts k ds ss =
     (case server k of
        Throws \<Rightarrow> \<lparr>ending = Errored, requests = k + 1, delays = ds, seen = ss\<rparr>
      | Reply success status \<Rightarrow>
          if \<not> success then \<lparr>ending = Unsuccessful, requests = k + 1, delays = ds, seen = ss\<rparr>
          else if status \<in> set finalStatuses
          then \<lparr>ending = Final status, requests = k + 1, delays = ds, seen = ss @ [status]\<rparr>
          else if attempts < maxAttempts
          then poll cfg maxAttempts server (attempts + 1) (k + 1)
                 (ds @ [pollInterval cfg]) (ss @ [status])
          else \<lparr>ending = TimedOut, requests = k + 1, delays = ds, seen = ss @ [status]\<rparr>)"
  by pat_completeness auto
termination
  by (relation "measure (\<lambda>(cfg, maxAttempts, server, attempts, k, ds, ss). maxAttempts - attempts)") auto

declare poll.simps [simp del]

text \<open>\<open>maxAttempts || config.maxPollAttempts\<close>: an argument that is absent or 0 is falsy.\<close>

definition effectiveMaxAttempts :: "config \<Rightarrow> nat option \<Rightarrow> nat" where
  "effectiveMaxAttempts cfg maxAttempts =
     (case maxAttempts of
        None \<Rightarrow> maxPollAttempts cfg
      | Some m \<Rightarrow> if m = 0 then maxPollAttempts cfg else m)"

definition startBatchStatusPolling :: "config \<Rightarrow> nat option \<Rightarrow> (nat \<Rightarrow> reply) \<Rightarrow> pollRun" where
  "startBatchStatusPolling cfg maxAttempts server =
     (if \<not> autoRefreshEnabled cfg
      then \<lparr>ending = Disabled, requests = 0, delays = [], seen = []\<rparr>
      else poll cfg (effectiveMaxAttempts cfg maxAttempts) server 0 0 [2000] [])"

subsection \<open>Two servers to evaluate on\<close>

text \<open>A batch that stays in \<open>PROCESSING\<close>, and one that is completed at the third request.\<close>

definition alwaysProcessing :: "nat \<Rightarrow> reply" where
  "alwaysProcessing i = Reply True ''PROCESSING''"

definition completedAtThird :: "nat \<Rightarrow> reply" where
  "completedAtThird i = (if i < 2 then Reply True ''PROCESSING'' else Reply True ''COMPLETED'')"

section \<open>The API router\<close>

datatype httpMethod = GET | POST | PUT | DELETE

text \<open>A path segment of a route: a literal, or a parameter such as \<open>:batchId\<close>.\<close>

datatype segment = Lit string | Param

text \<open>
  What a route does: call a controller method, answer through \<open>sendArchivedApi\<close> when
  \<open>SPLIT_ONLY\<close> is set and call the controller method otherwise, always answer through
  \<open>sendArchivedApi\<close>, or run an inline handler that calls \<open>extractFromLayout\<close>.
\<close>

datatype handler =
    Controller string
  | ArchivedWhenSplitOnly string string
  | Archived string
  | Inline string

datatype route = Route httpMethod "segment list" handler | UseNotFound

text \<open>
  The outcome of a request: the 410 response with error \<open>archived_feature\<close> for a feature,
  the handler that runs, or the 404 response.
\<close>

datatype outcome = ArchivedFeature string | Runs string | NotFound

text \<open>
  A request path is the list of its segments between the slashes; a trailing slash leaves
  an empty last segment. The router is created with the defaults of \<open>express.Router()\<close>:
  literals match without regard to case, a parameter matches a non-empty segment, and one
  trailing slash is allowed.
\<close>

fun matchPath :: "segment list \<Rightarrow> string list \<Rightarrow> bool" where
  "matchPath [] [] = True"
| "matchPath [] [x] = (x = [])"
| "matchPath (Lit s # ps) (x # xs) = (toLowerCase s = toLowerCase x \<and> matchPath ps xs)"
| "matchPath (Param # ps) (x # xs) = (x \<noteq> [] \<and> matchPath ps xs)"
| "matchPath _ _ = False"

text \<open>\<open>process.env.SPLIT_ONLY === '1' || process.env.SPLIT_ONLY === 'true'\<close>\<close>

definition splitOnly :: "string option \<Rightarrow> bool" where
  "splitOnly env = (env = Some ''1'' \<or> env = Some ''true'')"

fun respond :: "string option \<Rightarrow> handler \<Rightarrow> outcome" where
  "respond env (Controller h) = Runs h"
| "respond env (ArchivedWhenSplitOnly feature h) =
     (if splitOnly env then ArchivedFeature feature else Runs h)"
| "respond env (Archived feature) = ArchivedFeature feature"
| "respond env (Inline h) = Runs h"

text \<open>The routes in the order of registration, paths relative to the mount point.\<close>

definition apiRoutes :: "route list" where
  "apiRoutes =
     [Route POST [Lit ''upload''] (Controller ''uploadController.uploadPDF''),
      Route GET [Lit ''batches''] (Controller ''uploadController.listBatches''),
      Route GET [Lit ''batches'', Param] (Controller ''uploadController.getBatchInfo''),
      Route DELETE [Lit ''batches'', Param] (Controller ''uploadController.deleteBatch''),
      Route GET [Lit ''storage'', Lit ''stats''] (Controller ''uploadController.getStorageStats''),
      Route GET [Lit ''files'', Param, Lit ''pdf''] (Controller ''uploadController.servePDF''),
      Route POST [Lit ''batches'', Param, Lit ''process'']
        (Controller ''processingController.startProcessing''),
      Route GET [Lit ''batches'', Param, Lit ''status'']
        (Controller ''processingController.getProcessingStatus''),
      Route POST [Lit ''batches'', Param, Lit ''validate-splits'']
        (Controller ''processingController.validateSplits''),
      Route PUT [Lit ''batches'', Param, Lit ''splits'']
        (Controller ''processingController.updateSplits''),
      Route POST [Lit ''batches'', Param, Lit ''extract-data'']
        (ArchivedWhenSplitOnly ''data extraction'' ''processingController.extractInvoiceData''),
      Route GET [Lit ''batches'', Param, Lit ''extracted-data'']
        (ArchivedWhenSplitOnly ''extracted data retrieval'' ''processingController.getExtractedData''),
      Route POST [Lit ''batches'', Param, Lit ''extract-invoice'', Param]
        (Controller ''processingController.extractSingleInvoice''),
      Route GET [Lit ''health''] (Controller ''processingController.checkServiceHealth''),
      Route POST [Lit ''extract''] (Inline ''extractFromLayout''),
      Route POST [Lit ''extract-pdf''] (Inline ''extractFromLayout''),
      Route POST [Lit ''batches'', Param, Lit ''validate-data''] (Archived ''data validation''),
      Route GET [Lit ''batches'', Param, Lit ''validation-summary''] (Archived ''validation summary''),
      Route GET [Lit ''batches'', Param, Lit ''export''] (Archived ''data export''),
      UseNotFound,
      Route POST [Lit ''test-extract'', Param, Param] (Archived ''test extraction'')]"

text \<open>The first route that matches answers; \<open>router.use('*', ...)\<close> answers every request.\<close>

fun dispatch :: "string option \<Rightarrow> route list \<Rightarrow> httpMethod \<Rightarrow> string list \<Rightarrow> outcome" where
  "dispatch env [] m p = NotFound"
| "dispatch env (UseNotFound # rs) m p = NotFound"
| "dispatch env (Route m' pat h # rs) m p =
     (if m' = m \<and> matchPath pat p then respond env h else dispatch env rs m p)"

section \<open>Facts about the coercions\<close>

lemmas numberLike_eval =
  numberLike_def zNumber_def numberLikeTransform_def trim_def trimStart_def trimEnd_def
  isWhiteSpace_def normalizeSeparators_def removeWhiteSpace_def
  isDigit_def StringToNumber_def nonDecimalIntegerLiteral_def strUnsignedDecimalLiteral_def
  exponentPart_def roundToDouble_def digitsValue_def digitValue_def pow10_def isFinite_def
  negate_def

lemma dropThousands_nonempty: "s \<noteq> [] \<Longrightarrow> dropThousands sep s \<noteq> []"
proof (induction s rule: length_induct)
  case (1 s)
  then obtain c rest where s: "s = c # rest" by (cases s) auto
  show ?case
  proof (cases "c = sep \<and> threeDigitsThenBoundary rest")
    case True
    then have "rest \<noteq> []" by auto
    with 1 s have "dropThousands sep rest \<noteq> []" by simp
    with True s show ?thesis by simp
  next
    case False
    with s show ?thesis by auto
  qed
qed

lemma decimalComma_nonempty: "s \<noteq> [] \<Longrightarrow> decimalComma s \<noteq> []"
  by (cases s) auto

lemma trim_nonempty_has_text: "trim s \<noteq> [] \<Longrightarrow> removeWhiteSpace (trim s) \<noteq> []"
proof -
  assume ne: "trim s \<noteq> []"
  let ?d = "dropWhile isWhiteSpace s"
  from ne have r: "dropWhile isWhiteSpace (rev ?d) \<noteq> []"
    by (simp add: trim_def trimStart_def trimEnd_def)
  then have l: "\<not> isWhiteSpace (hd (dropWhile isWhiteSpace (rev ?d)))" by (rule hd_dropWhile)
  have "hd (dropWhile isWhiteSpace (rev ?d)) \<in> set (trim s)"
    using r by (simp add: trim_def trimStart_def trimEnd_def)
  with l show ?thesis
    by (auto simp: removeWhiteSpace_def filter_empty_conv)
qed

lemma normalizeSeparators_nonempty: "trim s \<noteq> [] \<Longrightarrow> normalizeSeparators (trim s) \<noteq> []"
  unfolding normalizeSeparators_def
  by (intro decimalComma_nonempty dropThousands_nonempty trim_nonempty_has_text)

text \<open>Trimming removes white space only, so the text without white space is the same.\<close>

lemma filter_dropWhile_ws:
  "filter (\<lambda>c. \<not> isWhiteSpace c) (dropWhile isWhiteSpace s) = filter (\<lambda>c. \<not> isWhiteSpace c) s"
  by (induction s) auto

lemma removeWhiteSpace_trim: "removeWhiteSpace (trim s) = removeWhiteSpace s"
proof -
  have "filter (\<lambda>c. \<not> isWhiteSpace c) (rev (dropWhile isWhiteSpace (rev (dropWhile isWhiteSpace s))))
        = rev (filter (\<lambda>c. \<not> isWhiteSpace c) (rev (dropWhile isWhiteSpace s)))"
    by (simp add: rev_filter [symmetric] filter_dropWhile_ws)
  also have "\<dots> = filter (\<lambda>c. \<not> isWhiteSpace c) s"
    by (simp add: rev_filter [symmetric] filter_dropWhile_ws)
  finally show ?thesis
    by (simp add: removeWhiteSpace_def trim_def trimStart_def trimEnd_def)
qed

lemma trim_empty_iff: "(trim s = []) = (filter (\<lambda>c. \<not> isWhiteSpace c) s = [])"
proof
  assume t: "trim s = []"
  have "removeWhiteSpace s = removeWhiteSpace (trim s)" by (rule removeWhiteSpace_trim [symmetric])
  with t show "filter (\<lambda>c. \<not> isWhiteSpace c) s = []"
    by (simp add: removeWhiteSpace_def)
next
  assume e: "filter (\<lambda>c. \<not> isWhiteSpace c) s = []"
  show "trim s = []"
  proof (rule ccontr)
    assume "trim s \<noteq> []"
    then have "removeWhiteSpace (trim s) \<noteq> []" by (rule trim_nonempty_has_text)
    then have "removeWhiteSpace s \<noteq> []" by (simp add: removeWhiteSpace_trim)
    with e show False by (simp add: removeWhiteSpace_def)
  qed
qed

text \<open>The two lookaheads, in the words of the specification.\<close>

lemma threeDigitsThenBoundary_iff:
  "threeDigitsThenBoundary r = (length (takeWhile isDigit r) = 3)"
  by (induction r rule: threeDigitsThenBoundary.induct) (auto split: list.splits)

lemma oneOrTwoDigitsThenEnd_iff:
  "oneOrTwoDigitsThenEnd r = (list_all isDigit r \<and> (length r = 1 \<or> length r = 2))"
  by (induction r rule: oneOrTwoDigitsThenEnd.induct) auto

lemma upt_0_Suc: "[0..<Suc n] = 0 # map Suc [0..<n]"
  by (simp add: upt_conv_Cons map_Suc_upt del: upt_Suc)

text \<open>
  The characters that \<open>dropThousands\<close> keeps are those at the positions that do not hold a
  separator followed by exactly three digits and then a non-digit or the end.
\<close>

lemma dropThousands_positions:
  "dropThousands sep t =
     map (\<lambda>i. t ! i)
       (filter (\<lambda>i. \<not> (t ! i = sep \<and> length (takeWhile isDigit (drop (Suc i) t)) = 3))
          [0..<length t])"
proof (induction t)
  case Nil
  show ?case by simp
next
  case (Cons c rest)
  have "dropThousands sep (c # rest)
        = (if c = sep \<and> length (takeWhile isDigit rest) = 3 then [] else [c]) @ dropThousands sep rest"
    by (simp add: threeDigitsThenBoundary_iff)
  also have "dropThousands sep rest =
     map (\<lambda>i. (c # rest) ! i)
       (map Suc (filter (\<lambda>i. \<not> (rest ! i = sep \<and> length (takeWhile isDigit (drop (Suc i) rest)) = 3))
          [0..<length rest]))"
    by (subst Cons.IH) (simp add: comp_def)
  finally show ?case
    by (simp add: upt_0_Suc filter_map comp_def del: upt_Suc)
qed

text \<open>
  \<open>decimalComma\<close> turns into a period the comma that one or two digits and the end
  follow, and leaves every other character.
\<close>

lemma digit_not_comma: "isDigit c \<Longrightarrow> c \<noteq> CHR '',''"
  by (auto simp: isDigit_def)

lemma decimalComma_positions:
  "decimalComma u =
     map (\<lambda>i. if u ! i = CHR '','' \<and> list_all isDigit (drop (Suc i) u)
                  \<and> (length u - Suc i = 1 \<or> length u - Suc i = 2)
               then CHR ''.'' else u ! i)
       [0..<length u]"
proof (induction u)
  case Nil
  show ?case by simp
next
  case (Cons c rest)
  let ?F = "\<lambda>u i. if u ! i = CHR '','' \<and> list_all isDigit (drop (Suc i) u)
                  \<and> (length u - Suc i = 1 \<or> length u - Suc i = 2)
               then CHR ''.'' else u ! i"
  have split: "map (?F (c # rest)) [0..<length (c # rest)]
               = ?F (c # rest) 0 # map (?F rest) [0..<length rest]"
    by (simp add: upt_0_Suc comp_def del: upt_Suc cong: if_cong)
  show ?case
  proof (cases "c = CHR '','' \<and> oneOrTwoDigitsThenEnd rest")
    case True
    then have d: "list_all isDigit rest" and l: "length rest = 1 \<or> length rest = 2"
      by (simp_all add: oneOrTwoDigitsThenEnd_iff)
    have same: "map (?F rest) [0..<length rest] = rest"
    proof (rule nth_equalityI)
      show "length (map (?F rest) [0..<length rest]) = length rest" by simp
    next
      fix i assume "i < length (map (?F rest) [0..<length rest])"
      then have i: "i < length rest" by simp
      with d have "isDigit (rest ! i)" by (simp add: list_all_length)
      then have "rest ! i \<noteq> CHR '',''" by (rule digit_not_comma)
      with i show "map (?F rest) [0..<length rest] ! i = rest ! i" by simp
    qed
    have hd: "?F (c # rest) 0 = CHR ''.''" using True d l by simp
    have "decimalComma (c # rest) = CHR ''.'' # rest" using True by simp
    then show ?thesis unfolding split same hd .
  next
    case False
    then have "\<not> (c = CHR '','' \<and> list_all isDigit rest \<and> (length rest = 1 \<or> length rest = 2))"
      by (simp add: oneOrTwoDigitsThenEnd_iff)
    then have hd: "?F (c # rest) 0 = c" by auto
    have "decimalComma (c # rest) = c # decimalComma rest" using False by auto
    then show ?thesis unfolding split hd using Cons.IH by simp
  qed
qed

text \<open>The whole string branch, on the text without its white space.\<close>

lemma numberLike_string_pipeline:
  "numberLike v (JString s) =
     Valid (if filter (\<lambda>c. \<not> isWhiteSpace c) s = [] then None
            else (let n = StringToNumber
                            (decimalComma (dropThousands (CHR ''.'') (dropThousands (CHR '','')
                               (filter (\<lambda>c. \<not> isWhiteSpace c) s))))
                  in if isFinite n then Some n else None))"
proof -
  have "normalizeSeparators (trim s) =
          decimalComma (dropThousands (CHR ''.'') (dropThousands (CHR '','')
            (filter (\<lambda>c. \<not> isWhiteSpace c) s)))"
    unfolding normalizeSeparators_def removeWhiteSpace_trim by (simp add: removeWhiteSpace_def)
  then show ?thesis
    by (simp add: numberLike_def numberLikeTransform_def trim_empty_iff Let_def)
qed
text \<open>
  C1. The test vectors of \<open>numberLike\<close>: \<open>"1,234.56"\<close> and \<open>"1.234,56"\<close> both give the number
  1234.56, the empty string and \<open>"abc"\<close> give an absent value. The algorithm on a string:
  the result depends on the text without its white space only, and a text of white space
  alone gives an absent value (trimming, removing the inner white space); from that text
  the commas and then the periods that exactly three digits and a non-digit or the end
  follow are dropped, every other character kept; the comma that one or two digits and
  the end follow becomes a period, every other character kept; the outcome is parsed by
  \<open>Number\<close>, and a result that is not finite is absent.
\<close>

theorem numberLike_vectors_and_algorithm:
  "numberLike v (JString ''1,234.56'') = Valid (Some (Finite (123456 / 100)))
   \<and> numberLike v (JString ''1.234,56'') = Valid (Some (Finite (123456 / 100)))
   \<and> numberLike v (JString '''') = Valid None
   \<and> numberLike v (JString ''abc'') = Valid None
   \<and> numberLike v (JString s) =
       Valid (if filter (\<lambda>c. \<not> isWhiteSpace c) s = [] then None
              else (let n = StringToNumber
                              (decimalComma (dropThousands (CHR ''.'') (dropThousands (CHR '','')
                                 (filter (\<lambda>c. \<not> isWhiteSpace c) s))))
                    in if isFinite n then Some n else None))
   \<and> dropThousands sep t =
       map (\<lambda>i. t ! i)
         (filter (\<lambda>i. \<not> (t ! i = sep \<and> length (takeWhile isDigit (drop (Suc i) t)) = 3))
            [0..<length t])
   \<and> decimalComma u =
       map (\<lambda>i. if u ! i = CHR '','' \<and> list_all isDigit (drop (Suc i) u)
                    \<and> (length u - Suc i = 1 \<or> length u - Suc i = 2)
                 then CHR ''.'' else u ! i)
         [0..<length u]"
proof (intro conjI)
  show "numberLike v (JString ''1,234.56'') = Valid (Some (Finite (123456 / 100)))"
    by (simp add: numberLike_eval)
  show "numberLike v (JString ''1.234,56'') = Valid (Some (Finite (123456 / 100)))"
    by (simp add: numberLike_eval)
  show "numberLike v (JString '''') = Valid None"
    by (simp add: numberLike_eval)
  show "numberLike v (JString ''abc'') = Valid None"
    by (simp add: numberLike_eval)
  show "numberLike v (JString s) =
       Valid (if filter (\<lambda>c. \<not> isWhiteSpace c) s = [] then None
              else (let n = StringToNumber
                              (decimalComma (dropThousands (CHR ''.'') (dropThousands (CHR '','')
                                 (filter (\<lambda>c. \<not> isWhiteSpace c) s))))
                    in if isFinite n then Some n else None))"
    by (rule numberLike_string_pipeline)
  show "dropThousands sep t =
       map (\<lambda>i. t ! i)
         (filter (\<lambda>i. \<not> (t ! i = sep \<and> length (takeWhile isDigit (drop (Suc i) t)) = 3))
            [0..<length t])"
    by (rule dropThousands_positions)
  show "decimalComma u =
       map (\<lambda>i. if u ! i = CHR '','' \<and> list_all isDigit (drop (Suc i) u)
                    \<and> (length u - Suc i = 1 \<or> length u - Suc i = 2)
                 then CHR ''.'' else u ! i)
         [0..<length u]"
    by (rule decimalComma_positions)
qed

theorem numberLike_vectors_and_algorithm_witness:
  "numberLike True (JString '' 1 234,50 '') = Valid (Some (Finite (12345 / 10)))
   \<and> numberLike True (JString ''  '') = Valid None
   \<and> numberLike True (JString ''1,5'') = Valid (Some (Finite (3 / 2)))
   \<and> numberLike True (JString ''1,2345'') = Valid None
   \<and> numberLike True (JString ''12,345,678'') = Valid (Some (Finite 12345678))
   \<and> dropThousands (CHR '','') ''1,2345'' = ''1,2345''
   \<and> dropThousands (CHR '','') ''1,234x'' = ''1234x''
   \<and> decimalComma ''1,5'' = ''1.5''
   \<and> decimalComma ''1,234'' = ''1,234''"
proof -
  note alg = numberLike_vectors_and_algorithm
    [THEN conjunct2, THEN conjunct2, THEN conjunct2, THEN conjunct2]
  note pipeline = alg [THEN conjunct1]
  note thousands = alg [THEN conjunct2, THEN conjunct1]
  note comma = alg [THEN conjunct2, THEN conjunct2]
  have d1: "dropThousands (CHR '','') ''1,2345'' = ''1,2345''"
    by (subst thousands) (simp add: isDigit_def upt_rec)
  have d2: "dropThousands (CHR '','') ''1,234x'' = ''1234x''"
    by (subst thousands) (simp add: isDigit_def upt_rec)
  have c1: "decimalComma ''1,5'' = ''1.5''"
    by (subst comma) (simp add: isDigit_def upt_rec)
  have c2: "decimalComma ''1,234'' = ''1,234''"
    by (subst comma) (simp add: isDigit_def upt_rec)
  have n1: "numberLike True (JString '' 1 234,50 '') = Valid (Some (Finite (12345 / 10)))"
    by (subst pipeline) (simp add: numberLike_eval)
  have n2: "numberLike True (JString ''  '') = Valid None"
    by (subst pipeline) (simp add: isWhiteSpace_def)
  have n3: "numberLike True (JString ''1,5'') = Valid (Some (Finite (3 / 2)))"
    by (subst pipeline) (simp add: numberLike_eval)
  have n4: "numberLike True (JString ''1,2345'') = Valid None"
    by (subst pipeline) (simp add: numberLike_eval)
  have n5: "numberLike True (JString ''12,345,678'') = Valid (Some (Finite 12345678))"
    by (subst pipeline) (simp add: numberLike_eval)
  from d1 d2 c1 c2 n1 n2 n3 n4 n5 show ?thesis by blast
qed

text \<open>
  C5. A string that is empty after trimming, or whose normalized text \<open>Number\<close> does not read
  as a finite number, gives an absent value, which is not the number zero.
\<close>

theorem numberLike_absent_not_zero:
  assumes "trim str = [] \<or> \<not> isFinite (StringToNumber (normalizeSeparators (trim str)))"
  shows "numberLike v (JString str) = Valid None
         \<and> numberLike v (JString str) \<noteq> Valid (Some (Finite 0))"
  using assms by (auto simp: numberLike_def numberLikeTransform_def Let_def)

theorem numberLike_absent_not_zero_witness:
  "(trim ''  '' = [] \<or> \<not> isFinite (StringToNumber (normalizeSeparators (trim ''  ''))))
   \<and> numberLike True (JString ''  '') = Valid None
   \<and> numberLike True (JString ''  '') \<noteq> Valid (Some (Finite 0))
   \<and> (trim ''n/a'' = [] \<or> \<not> isFinite (StringToNumber (normalizeSeparators (trim ''n/a''))))
   \<and> numberLike True (JString ''n/a'') = Valid None
   \<and> numberLike True (JString ''n/a'') \<noteq> Valid (Some (Finite 0))"
proof -
  have a: "trim ''  '' = [] \<or> \<not> isFinite (StringToNumber (normalizeSeparators (trim ''  '')))"
    by (simp add: trim_def trimStart_def trimEnd_def isWhiteSpace_def)
  have b: "trim ''n/a'' = [] \<or> \<not> isFinite (StringToNumber (normalizeSeparators (trim ''n/a'')))"
    by (simp add: numberLike_eval)
  from a b numberLike_absent_not_zero [OF a, of True] numberLike_absent_not_zero [OF b, of True]
  show ?thesis by blast
qed

text \<open>
  The zero that \<open>Number\<close> gives for an empty text is out of reach: the text handed to
  \<open>Number\<close> is never empty, and a present result is the finite number read from it.
\<close>

lemma numberLike_present:
  assumes "numberLike v (JString str) = Valid (Some n)"
  shows "normalizeSeparators (trim str) \<noteq> [] \<and> isFinite n
         \<and> n = StringToNumber (normalizeSeparators (trim str))"
proof -
  from assms have ne: "trim str \<noteq> []"
    by (auto simp: numberLike_def numberLikeTransform_def Let_def split: if_splits)
  from assms ne have "isFinite n \<and> n = StringToNumber (normalizeSeparators (trim str))"
    by (auto simp: numberLike_def numberLikeTransform_def Let_def split: if_splits)
  with normalizeSeparators_nonempty [OF ne] show ?thesis by blast
qed

text \<open>
  C9, as stated, fails: NaN is a native number that \<open>z.number()\<close> does not admit, in either
  version of the library, so the union raises an issue before the transform runs and
  \<open>numberLike\<close> does not return it.
\<close>

theorem numberLike_NaN_rejected:
  "numberLike True (JNumber NaN) = Invalid \<and> numberLike False (JNumber NaN) = Invalid"
  by (simp add: numberLike_def zNumber_def)

text \<open>
  C9, amended. \<open>numberLike\<close> returns unchanged every native number that the member
  \<open>z.number()\<close> of its union admits, which every finite number is, zero included, and an
  infinity where the library admits it: such a number is never mapped to absence. A
  number that is not admitted, as NaN, is rejected with an issue. Only a string goes
  through the finiteness check.
\<close>

theorem numberLike_number_identity:
  "(zNumber v n \<longrightarrow> numberLike v (JNumber n) = Valid (Some n))
   \<and> (\<not> zNumber v n \<longrightarrow> numberLike v (JNumber n) = Invalid)
   \<and> zNumber v (Finite q) \<and> numberLike v (JNumber (Finite q)) = Valid (Some (Finite q))
   \<and> zNumber v PosInfinity = v \<and> zNumber v NegInfinity = v \<and> \<not> zNumber v NaN
   \<and> (\<forall>str m. numberLike v (JString str) = Valid (Some m) \<longrightarrow> isFinite m)"
  using numberLike_present by (auto simp: numberLike_def numberLikeTransform_def zNumber_def)

theorem numberLike_number_identity_witness:
  "zNumber True PosInfinity
   \<and> numberLike True (JNumber PosInfinity) = Valid (Some PosInfinity)
   \<and> numberLike True (JNumber NegInfinity) = Valid (Some NegInfinity)
   \<and> numberLike False (JNumber (Finite 0)) = Valid (Some (Finite 0))
   \<and> numberLike False (JNumber PosInfinity) = Invalid
   \<and> numberLike True (JString ''7'') = Valid (Some (Finite 7)) \<and> isFinite (Finite 7)"
proof -
  have s: "numberLike True (JString ''7'') = Valid (Some (Finite 7))"
    by (simp add: numberLike_eval)
  have p: "zNumber True PosInfinity" "zNumber True NegInfinity" "\<not> zNumber False PosInfinity"
    by (simp_all add: zNumber_def)
  from numberLike_number_identity [of True PosInfinity] s have f: "isFinite (Finite 7)" by blast
  from numberLike_number_identity [of True PosInfinity] p
  have a: "numberLike True (JNumber PosInfinity) = Valid (Some PosInfinity)" by blast
  from numberLike_number_identity [of True NegInfinity] p
  have b: "numberLike True (JNumber NegInfinity) = Valid (Some NegInfinity)" by blast
  from numberLike_number_identity [of False PosInfinity 0]
  have c: "numberLike False (JNumber (Finite 0)) = Valid (Some (Finite 0))" by blast
  from numberLike_number_identity [of False PosInfinity] p
  have d: "numberLike False (JNumber PosInfinity) = Invalid" by blast
  from p s f a b c d show ?thesis by blast
qed

section \<open>Facts about the schema\<close>

text \<open>
  On the raw values that reach it, \<open>numberLike.optional()\<close> is the schema \<open>numberLike\<close>, in
  either version of the library.
\<close>

lemma numberLikeOptional_numberLike:
  "numberLikeOptional (Some (JNum q)) = numberLike v (JNumber (Finite q))"
  "numberLikeOptional (Some (JStr s)) = numberLike v (JString s)"
  by (simp_all add: numberLikeOptional_def numberLike_def zNumber_def)

text \<open>
  C4, as stated, fails: the empty string passes the string member of the union and the
  transform returns \<open>String('')\<close>, a present empty string.
\<close>

theorem optionalString_empty_present:
  "optionalString (Some (JStr [])) = Valid (Some (Literal []))"
  by (simp add: optionalString_def)

text \<open>
  C4, amended. \<open>optionalString\<close> accepts a string or a number and stringifies it; a missing
  input stays absent; every string, the empty one included, is returned as it is, so no
  string and no number gives an absent value.
\<close>

theorem optionalString_missing_stays_absent:
  "optionalString None = Valid None
   \<and> optionalString (Some (JStr s)) = Valid (Some (Literal s))
   \<and> optionalString (Some (JNum q)) = Valid (Some (NumberToString q))
   \<and> optionalString (Some (JStr s)) \<noteq> Valid None
   \<and> optionalString (Some (JNum q)) \<noteq> Valid None"
  by (simp add: optionalString_def)

lemma type_is_string_field: "(''type'', kind) \<in> set lineItemShape \<Longrightarrow> kind = StringField"
  by (auto simp: lineItemShape_def)

lemma stringOrMissing_valid: "stringOrMissing v \<Longrightarrow> fieldValid StringField v"
  by (auto simp: stringOrMissing_def fieldValid_def zStringOptional_def split: option.splits json.splits)

lemma lineItem_issues_agree:
  assumes agree: "\<forall>k. k \<noteq> ''type'' \<longrightarrow> g1 k = g2 k"
    and t1: "stringOrMissing (g1 ''type'')" and t2: "stringOrMissing (g2 ''type'')"
  shows "filter (\<lambda>(k, kind). \<not> fieldValid kind (g1 k)) lineItemShape
         = filter (\<lambda>(k, kind). \<not> fieldValid kind (g2 k)) lineItemShape"
proof (rule filter_cong [OF refl])
  fix x assume x: "x \<in> set lineItemShape"
  obtain k kind where kk: "x = (k, kind)" by (cases x)
  show "(case x of (k, kind) \<Rightarrow> \<not> fieldValid kind (g1 k))
        = (case x of (k, kind) \<Rightarrow> \<not> fieldValid kind (g2 k))"
  proof (cases "k = ''type''")
    case True
    with x kk have "kind = StringField" using type_is_string_field by blast
    with True kk t1 t2 show ?thesis by (simp add: stringOrMissing_valid)
  next
    case False
    with agree kk show ?thesis by simp
  qed
qed

text \<open>
  C8, as stated, fails: the field \<open>type\<close> is \<open>z.string().optional()\<close>, so of two records
  that differ only in it the one with a string is accepted and the one with \<open>null\<close> is
  rejected.
\<close>

theorem lineItem_type_null_rejected:
  "validateLineItem (JObject [(''type'', JStr ''tax'')])
     = Inr \<lparr>productCode = None, description = None, hsCode = None, originCountry = None,
            farePreference = None, totalAmount = None, netWeight = None, grossWeight = None,
            quantity = None, UOM = None, itemType = Some ''tax'', rate = None,
            baseAmount = None, currency = None, category = None\<rparr>
   \<and> validateLineItem (JObject [(''type'', JNull)]) = Inl [''type'']"
  by (simp add: validateLineItem_def lineItemShape_def fieldValid_def zStringOptional_def
      numberLikeOptional_def stringOut_def numberOut_def)

text \<open>
  C8, amended. For two raw line items that differ only in the field \<open>type\<close>, each value of
  which is a string (of the six listed or not) or missing, validation reports the same
  issues, so it accepts one exactly when it accepts the other, and the outputs are the
  same except in that field.
\<close>

theorem lineItem_type_informational:
  assumes "\<forall>k. k \<noteq> ''type'' \<longrightarrow> map_of r1 k = map_of r2 k"
    and "stringOrMissing (map_of r1 ''type'')" and "stringOrMissing (map_of r2 ''type'')"
  shows "isl (validateLineItem (JObject r1)) = isl (validateLineItem (JObject r2))
         \<and> (\<forall>issues. (validateLineItem (JObject r1) = Inl issues)
                      = (validateLineItem (JObject r2) = Inl issues))
         \<and> (\<forall>a. validateLineItem (JObject r1) = Inr a \<longrightarrow>
                validateLineItem (JObject r2) = Inr (a\<lparr>itemType := stringOut (map_of r2 ''type'')\<rparr>))"
proof -
  have i: "filter (\<lambda>(k, kind). \<not> fieldValid kind (map_of r1 k)) lineItemShape
           = filter (\<lambda>(k, kind). \<not> fieldValid kind (map_of r2 k)) lineItemShape"
    using assms by (rule lineItem_issues_agree)
  have f: "map_of r1 ''productCode'' = map_of r2 ''productCode''"
    "map_of r1 ''description'' = map_of r2 ''description''"
    "map_of r1 ''hsCode'' = map_of r2 ''hsCode''"
    "map_of r1 ''originCountry'' = map_of r2 ''originCountry''"
    "map_of r1 ''farePreference'' = map_of r2 ''farePreference''"
    "map_of r1 ''totalAmount'' = map_of r2 ''totalAmount''"
    "map_of r1 ''netWeight'' = map_of r2 ''netWeight''"
    "map_of r1 ''grossWeight'' = map_of r2 ''grossWeight''"
    "map_of r1 ''quantity'' = map_of r2 ''quantity''"
    "map_of r1 ''UOM'' = map_of r2 ''UOM''"
    "map_of r1 ''rate'' = map_of r2 ''rate''"
    "map_of r1 ''baseAmount'' = map_of r2 ''baseAmount''"
    "map_of r1 ''currency'' = map_of r2 ''currency''"
    "map_of r1 ''category'' = map_of r2 ''category''"
    using assms(1) by simp_all
  show ?thesis
    by (simp add: validateLineItem_def Let_def i f)
qed

theorem lineItem_type_informational_witness:
  "stringOrMissing (map_of [(''type'', JStr ''tax''), (''rate'', JStr ''20'')] ''type'')
   \<and> stringOrMissing (map_of [(''type'', JStr ''levy''), (''rate'', JStr ''20'')] ''type'')
   \<and> \<not> isl (validateLineItem (JObject [(''type'', JStr ''tax''), (''rate'', JStr ''20'')]))
   \<and> \<not> isl (validateLineItem (JObject [(''type'', JStr ''levy''), (''rate'', JStr ''20'')]))"
proof -
  let ?r1 = "[(''type'', JStr ''tax''), (''rate'', JStr ''20'')]"
  let ?r2 = "[(''type'', JStr ''levy''), (''rate'', JStr ''20'')]"
  have a: "\<forall>k. k \<noteq> ''type'' \<longrightarrow> map_of ?r1 k = map_of ?r2 k" by simp
  have b: "stringOrMissing (map_of ?r1 ''type'')" by (simp add: stringOrMissing_def)
  have c: "stringOrMissing (map_of ?r2 ''type'')" by (simp add: stringOrMissing_def)
  have d: "\<not> isl (validateLineItem (JObject ?r1))"
    by (simp add: validateLineItem_def lineItemShape_def fieldValid_def zStringOptional_def
        numberLikeOptional_def)
  from lineItem_type_informational [OF a b c] d
  have "\<not> isl (validateLineItem (JObject ?r2))" by blast
  with b c d show ?thesis by blast
qed
section \<open>Facts about the table hints\<close>

lemmas norm_eval =
  norm_text_def toLowerCase_def lowerChar_def upperChars_def lowerChars_def
  replaceNonHeaderChars_def isHeaderChar_def trim_def trimStart_def trimEnd_def isWhiteSpace_def

lemma headerChar_not_ws: "isHeaderChar c \<Longrightarrow> \<not> isWhiteSpace c"
  by (auto simp: isHeaderChar_def isWhiteSpace_def)

lemma space_is_ws: "isWhiteSpace (CHR '' '')"
  by (simp add: isWhiteSpace_def)

lemma tokens_skip: "tokens P (dropWhile (\<lambda>x. \<not> P x) xs) = tokens P xs"
  by (induction xs) auto

lemma tokens_eq_Nil: "(tokens P xs = []) = (\<forall>x\<in>set xs. \<not> P x)"
  by (induction xs) auto

lemma tokens_map_fill:
  assumes PQ: "\<And>x. P x \<Longrightarrow> Q x" and d: "\<not> Q d"
  shows "tokens Q (map (\<lambda>x. if P x then x else d) xs) = tokens P xs"
proof (induction xs rule: length_induct)
  case (1 xs)
  let ?f = "\<lambda>x. if P x then x else d"
  have Qf: "Q \<circ> ?f = P" using PQ d by (auto simp: fun_eq_iff)
  show ?case
  proof (cases xs)
    case Nil
    then show ?thesis by simp
  next
    case (Cons x ys)
    show ?thesis
    proof (cases "P x")
      case True
      have tw: "takeWhile Q (map ?f ys) = takeWhile P ys"
        unfolding takeWhile_map Qf by (rule map_idI) (auto dest: set_takeWhileD)
      have dw: "dropWhile Q (map ?f ys) = map ?f (dropWhile P ys)"
        unfolding dropWhile_map Qf ..
      have "length (dropWhile P ys) < length xs"
        using Cons by (simp add: less_Suc_eq_le length_dropWhile_le)
      with 1 have "tokens Q (map ?f (dropWhile P ys)) = tokens P (dropWhile P ys)" by blast
      with True Cons tw dw PQ show ?thesis by simp
    next
      case False
      from 1 Cons have "tokens Q (map ?f ys) = tokens P ys" by simp
      with False Cons d show ?thesis by simp
    qed
  qed
qed

lemma trimEnd_Cons_text: "\<not> isWhiteSpace x \<Longrightarrow> trimEnd (x # r) = x # trimEnd r"
  by (simp add: trimEnd_def dropWhile_append)

lemma trimEnd_Cons_ws:
  "isWhiteSpace x \<Longrightarrow> trimEnd (x # r) = (if \<forall>c\<in>set r. isWhiteSpace c then [] else x # trimEnd r)"
  by (simp add: trimEnd_def dropWhile_append)

lemma trimEnd_text_append:
  "\<forall>c\<in>set a. \<not> isWhiteSpace c \<Longrightarrow> trimEnd (a @ r) = a @ trimEnd r"
  by (induction a) (auto simp: trimEnd_Cons_text)

lemma trimEnd_Nil: "trimEnd [] = []"
  by (simp add: trimEnd_def)

lemma trim_Cons_text: "\<not> isWhiteSpace x \<Longrightarrow> trim (x # r) = x # trimEnd r"
  by (simp add: trim_def trimStart_def trimEnd_Cons_text)

lemma trim_Cons_ws: "isWhiteSpace x \<Longrightarrow> trim (x # r) = trim r"
  by (simp add: trim_def trimStart_def)

lemma collapse_text_prefix:
  "collapseWhiteSpace xs =
     takeWhile (\<lambda>c. \<not> isWhiteSpace c) xs @ collapseWhiteSpace (dropWhile (\<lambda>c. \<not> isWhiteSpace c) xs)"
  by (induction xs) auto

lemma join_Cons: "ts \<noteq> [] \<Longrightarrow> join sep (t # ts) = t @ sep @ join sep ts"
  by (cases ts) auto

lemma trim_collapse_tokens:
  "trim (collapseWhiteSpace u) = join '' '' (tokens (\<lambda>c. \<not> isWhiteSpace c) u)"
proof (induction u rule: length_induct)
  case (1 u)
  let ?N = "\<lambda>c. \<not> isWhiteSpace c"
  show ?case
  proof (cases u)
    case Nil
    then show ?thesis by (simp add: trim_def trimStart_def trimEnd_def)
  next
    case (Cons x xs)
    show ?thesis
    proof (cases "isWhiteSpace x")
      case True
      let ?r = "dropWhile isWhiteSpace xs"
      have "length ?r < length u" using Cons by (simp add: less_Suc_eq_le length_dropWhile_le)
      with 1 have ih: "trim (collapseWhiteSpace ?r) = join '' '' (tokens ?N ?r)" by blast
      have "tokens ?N ?r = tokens ?N xs" using tokens_skip [of ?N xs] by simp
      with ih True Cons show ?thesis by (simp add: trim_Cons_ws space_is_ws)
    next
      case False
      let ?tok = "x # takeWhile ?N xs"
      let ?rest = "dropWhile ?N xs"
      let ?more = "dropWhile isWhiteSpace ?rest"
      have tokN: "\<forall>c\<in>set (takeWhile ?N xs). \<not> isWhiteSpace c" by (auto dest: set_takeWhileD)
      have cu: "collapseWhiteSpace u = ?tok @ collapseWhiteSpace ?rest"
      proof -
        have "collapseWhiteSpace u = x # collapseWhiteSpace xs" using False Cons by simp
        also have "collapseWhiteSpace xs = takeWhile ?N xs @ collapseWhiteSpace ?rest"
          by (rule collapse_text_prefix)
        finally show ?thesis by simp
      qed
      have tu: "tokens ?N u = ?tok # tokens ?N ?more"
        using False Cons tokens_skip [of ?N ?rest] by simp
      have trim_u: "trim (collapseWhiteSpace u) = ?tok @ trimEnd (collapseWhiteSpace ?rest)"
        unfolding cu using False tokN by (simp add: trim_Cons_text trimEnd_text_append)
      have len: "length ?more < length u"
        using Cons length_dropWhile_le [of isWhiteSpace ?rest] length_dropWhile_le [of ?N xs] by simp
      with 1 have ih: "trim (collapseWhiteSpace ?more) = join '' '' (tokens ?N ?more)" by blast
      show ?thesis
      proof (cases ?rest)
        case Nil
        have e1: "collapseWhiteSpace ?rest = []" by (simp only: Nil collapseWhiteSpace.simps)
        have e2: "tokens ?N ?more = []" by (simp only: Nil dropWhile.simps tokens.simps)
        show ?thesis unfolding trim_u tu e1 e2 by (simp add: trimEnd_Nil)
      next
        case r: (Cons w r')
        have w: "isWhiteSpace w" using hd_dropWhile [of ?N xs] unfolding r by simp
        have m: "?more = dropWhile isWhiteSpace r'"
          by (simp only: r dropWhile.simps w if_True)
        have cr: "collapseWhiteSpace ?rest = CHR '' '' # collapseWhiteSpace ?more"
          unfolding m by (simp only: r collapseWhiteSpace.simps w if_True)
        show ?thesis
        proof (cases ?more)
          case Nil
          have e1: "collapseWhiteSpace ?more = []" by (simp only: Nil collapseWhiteSpace.simps)
          have e2: "tokens ?N ?more = []" by (simp only: Nil tokens.simps)
          show ?thesis unfolding trim_u tu cr e1 e2
            by (simp add: trimEnd_Cons_ws space_is_ws trimEnd_Nil)
        next
          case d: (Cons y d')
          have y: "\<not> isWhiteSpace y" using hd_dropWhile [of isWhiteSpace ?rest] unfolding d by simp
          have cd: "collapseWhiteSpace ?more = y # collapseWhiteSpace d'"
            by (simp only: d collapseWhiteSpace.simps y if_False)
          have ne: "tokens ?N ?more \<noteq> []" unfolding d using y by simp
          have "trimEnd (collapseWhiteSpace ?rest) = CHR '' '' # trim (collapseWhiteSpace ?more)"
            unfolding cr cd using y
            by (simp add: trimEnd_Cons_ws space_is_ws trim_Cons_text trimEnd_Cons_text)
          then show ?thesis unfolding trim_u tu ih using ne by (simp add: join_Cons)
        qed
      qed
    qed
  qed
qed

lemma norm_text_tokens: "norm_text t = join '' '' (tokens isHeaderChar (toLowerCase t))"
  unfolding norm_text_def trim_collapse_tokens replaceNonHeaderChars_def
  by (rule arg_cong [where f = "join '' ''"], rule tokens_map_fill)
     (auto simp: headerChar_not_ws space_is_ws)

lemma str_includes_sublist: "str_includes h g = sublist g h"
  by (induction h) (auto simp: sublist_Cons_right)

lemma foldl_count:
  "foldl (\<lambda>s g. if Q g then s + 1 else s) (a::nat) gs = a + length (filter Q gs)"
  by (induction gs arbitrary: a) auto

lemma scoreHeader_count:
  "scoreHeader hs =
     length (filter (\<lambda>group. \<exists>h\<in>set hs. \<exists>g\<in>set group. sublist g (norm_text h)) HEADER_PATTERNS)"
  by (simp add: scoreHeader_def foldl_count list_ex_iff str_includes_sublist)

lemma tableStep_cases:
  "tableStep idx t acc =
     (if hasHeaderRow t then (fst acc @ [glossaryEntry (hintOf idx t)], snd acc @ [hintOf idx t])
      else acc)"
proof (cases "cells t")
  case None
  then show ?thesis by (simp add: tableStep_def hasHeaderRow_def)
next
  case (Some cs)
  have ex: "list_ex (\<lambda>c. rowIndex c = 0) cs = (filter (\<lambda>c. rowIndex c = 0) cs \<noteq> [])"
    by (auto simp: list_ex_iff filter_empty_conv)
  have "filter (\<lambda>c. rowIndex c = 0) cs \<noteq> [] \<Longrightarrow> cs \<noteq> []" by auto
  with Some ex show ?thesis
    by (auto simp: tableStep_def hasHeaderRow_def headerCellsOf_def hintOf_def glossaryEntry_def Let_def)
qed

lemma forEachTable_emitted:
  "forEachTable idx ts acc = (fst acc @ map glossaryEntry (emitted idx ts), snd acc @ emitted idx ts)"
proof (induction ts arbitrary: idx acc)
  case Nil
  show ?case by (simp add: emitted_def)
next
  case (Cons t ts)
  have "idx < idx + length (t # ts)" by simp
  from upt_conv_Cons [OF this]
  have up: "[idx..<idx + length (t # ts)] = idx # [Suc idx..<Suc idx + length ts]" by simp
  have em: "emitted idx (t # ts) = (if hasHeaderRow t then [hintOf idx t] else []) @ emitted (Suc idx) ts"
    unfolding emitted_def up by simp
  show ?case
    by (simp add: Cons.IH tableStep_cases em)
qed

lemma zip_upt_nth: "zip [0..<length ts] ts = map (\<lambda>i. (i, ts ! i)) [0..<length ts]"
  by (rule nth_equalityI) auto

lemma emitted_indices:
  "map tableIndex (emitted 0 ts) = filter (\<lambda>i. hasHeaderRow (ts ! i)) [0..<length ts]"
proof -
  have "map tableIndex (emitted 0 ts)
        = map fst (filter (\<lambda>p. hasHeaderRow (snd p)) (zip [0..<length ts] ts))"
    by (simp add: emitted_def hintOf_def Let_def)
  also have "\<dots> = filter (\<lambda>i. hasHeaderRow (ts ! i)) [0..<length ts]"
    unfolding zip_upt_nth by (simp add: filter_map comp_def)
  finally show ?thesis .
qed

lemma emitted_length: "length (emitted 0 ts) = length (filter hasHeaderRow ts)"
proof -
  let ?zs = "zip [0..<length ts] ts"
  have "length (filter hasHeaderRow (map snd ?zs)) = length (filter (\<lambda>p. hasHeaderRow (snd p)) ?zs)"
    by (simp only: filter_map length_map comp_def)
  moreover have "map snd ?zs = ts" by simp
  ultimately show ?thesis by (simp add: emitted_def)
qed

lemma emitted_member:
  assumes "h \<in> set (emitted 0 ts)"
  shows "tableIndex h < length ts \<and> hasHeaderRow (ts ! tableIndex h) \<and> h = hintOf (tableIndex h) (ts ! tableIndex h)"
proof -
  from assms obtain i t where it: "(i, t) \<in> set (zip [0..<length ts] ts)" "hasHeaderRow t" "h = hintOf i t"
    by (auto simp: emitted_def)
  from it(1) have "i < length ts \<and> t = ts ! i"
    unfolding zip_upt_nth by auto
  moreover from it(3) have "tableIndex h = i" by (simp add: hintOf_def Let_def)
  ultimately show ?thesis using it by simp
qed

lemma hints_emitted: "hints (deriveProductTableHints l) = emitted 0 (tablesOf l)"
  by (simp add: deriveProductTableHints_def forEachTable_emitted Let_def)

lemma glossary_emitted:
  "glossary (deriveProductTableHints l) = join glossarySeparator (map glossaryEntry (emitted 0 (tablesOf l)))"
  by (simp add: deriveProductTableHints_def forEachTable_emitted Let_def glossarySeparator_def)

text \<open>
  C2. The hints are as many as the tables with a header row, one for each such table at
  its position in the input, whatever its score; a table with a header row adds exactly
  one hint, and a table without one leaves the glossary parts and the hints as they were.
\<close>

theorem tableHints_one_per_header_table:
  "length (hints (deriveProductTableHints l)) = length (filter hasHeaderRow (tablesOf l))
   \<and> map tableIndex (hints (deriveProductTableHints l))
       = filter (\<lambda>i. hasHeaderRow (tablesOf l ! i)) [0..<length (tablesOf l)]
   \<and> (\<forall>idx t acc. hasHeaderRow t \<longrightarrow> length (snd (tableStep idx t acc)) = length (snd acc) + 1)
   \<and> (\<forall>idx t acc. \<not> hasHeaderRow t \<longrightarrow> tableStep idx t acc = acc)"
  by (simp add: hints_emitted emitted_length emitted_indices tableStep_cases)

text \<open>
  C10. The hints come in strictly increasing \<open>tableIndex\<close>, in the order of the input
  tables; the headers of a hint are the contents of the header cells of its table in
  ascending \<open>columnIndex\<close>, a missing content read as the empty string; the glossary is
  the entries of the hints, one each and in the same order, joined by the separator.
\<close>

theorem tableHints_aligned_and_ordered:
  "sorted_wrt (<) (map tableIndex (hints (deriveProductTableHints l)))
   \<and> map tableIndex (hints (deriveProductTableHints l))
       = filter (\<lambda>i. hasHeaderRow (tablesOf l ! i)) [0..<length (tablesOf l)]
   \<and> (\<forall>h\<in>set (hints (deriveProductTableHints l)).
         tableIndex h < length (tablesOf l)
         \<and> (\<exists>cs. mset cs = mset (headerCellsOf (tablesOf l ! tableIndex h))
                 \<and> sorted (map columnIndex cs)
                 \<and> headers h = map contentOrEmpty cs))
   \<and> glossary (deriveProductTableHints l)
       = join glossarySeparator (map glossaryEntry (hints (deriveProductTableHints l)))"
proof (intro conjI ballI)
  show "sorted_wrt (<) (map tableIndex (hints (deriveProductTableHints l)))"
    unfolding hints_emitted emitted_indices by (rule sorted_wrt_filter) simp
  show "map tableIndex (hints (deriveProductTableHints l))
          = filter (\<lambda>i. hasHeaderRow (tablesOf l ! i)) [0..<length (tablesOf l)]"
    by (simp add: hints_emitted emitted_indices)
  show "glossary (deriveProductTableHints l)
          = join glossarySeparator (map glossaryEntry (hints (deriveProductTableHints l)))"
    by (simp add: hints_emitted glossary_emitted)
next
  fix h assume "h \<in> set (hints (deriveProductTableHints l))"
  then have m: "tableIndex h < length (tablesOf l)"
    "h = hintOf (tableIndex h) (tablesOf l ! tableIndex h)"
    using emitted_member [of h "tablesOf l"] by (simp_all add: hints_emitted)
  show "tableIndex h < length (tablesOf l)" by (rule m(1))
  let ?cs = "sort_key columnIndex (headerCellsOf (tablesOf l ! tableIndex h))"
  have "headers h = map contentOrEmpty ?cs"
    by (subst m(2)) (simp add: hintOf_def Let_def)
  moreover have "mset ?cs = mset (headerCellsOf (tablesOf l ! tableIndex h))" by simp
  moreover have "sorted (map columnIndex ?cs)" by (rule sorted_sort_key)
  ultimately show "\<exists>cs. mset cs = mset (headerCellsOf (tablesOf l ! tableIndex h))
                 \<and> sorted (map columnIndex cs) \<and> headers h = map contentOrEmpty cs"
    by blast
qed

lemmas example_eval =
  exampleLayout_def tableQty_def tableBody_def tableNoCells_def tableUnlabelled_def
  tablesOf_def hasHeaderRow_def headerCellsOf_def

lemma example_hints:
  "hints (deriveProductTableHints exampleLayout) =
     [\<lparr>tableIndex = 0, headers = ['''', ''Qty''], score = 1\<rparr>,
      \<lparr>tableIndex = 3, headers = [''???''], score = 0\<rparr>]"
  by (simp add: deriveProductTableHints_def example_eval tableStep_def contentOrEmpty_def
      scoreHeader_def HEADER_PATTERNS_def norm_eval)

lemma example_glossary:
  "glossary (deriveProductTableHints exampleLayout) =
     ''Table 1 with headers: , Qty'' @ glossarySeparator @ ''Table 4 with headers: ???''"
  by (simp add: deriveProductTableHints_def example_eval tableStep_def contentOrEmpty_def
      scoreHeader_def HEADER_PATTERNS_def norm_eval natToString.simps glossarySeparator_def)

theorem tableHints_one_per_header_table_witness:
  "length (hints (deriveProductTableHints exampleLayout)) = 2
   \<and> map tableIndex (hints (deriveProductTableHints exampleLayout)) = [0, 3]
   \<and> hasHeaderRow tableUnlabelled \<and> scoreHeader [''???''] = 0
   \<and> length (snd (tableStep 3 tableUnlabelled ([], []))) = 1
   \<and> \<not> hasHeaderRow tableBody \<and> tableStep 1 tableBody ([], []) = ([], [])"
proof -
  have n: "length (filter hasHeaderRow (tablesOf exampleLayout)) = 2"
    by (simp add: example_eval)
  have i: "filter (\<lambda>i. hasHeaderRow (tablesOf exampleLayout ! i)) [0..<length (tablesOf exampleLayout)] = [0, 3]"
    by (simp add: example_eval upt_rec)
  have u: "hasHeaderRow tableUnlabelled" by (simp add: example_eval)
  have b: "\<not> hasHeaderRow tableBody" by (simp add: example_eval)
  have s: "scoreHeader [''???''] = 0"
    by (simp add: scoreHeader_def HEADER_PATTERNS_def norm_eval)
  from tableHints_one_per_header_table [of exampleLayout] u b
  have "length (snd (tableStep 3 tableUnlabelled ([], []))) = length (snd (([], []) :: string list \<times> hint list)) + 1"
    and "tableStep 1 tableBody ([], []) = ([], [])"
    by blast+
  with tableHints_one_per_header_table [of exampleLayout] n i u b s show ?thesis by simp
qed

theorem tableHints_aligned_and_ordered_witness:
  "hints (deriveProductTableHints exampleLayout) =
     [\<lparr>tableIndex = 0, headers = ['''', ''Qty''], score = 1\<rparr>,
      \<lparr>tableIndex = 3, headers = [''???''], score = 0\<rparr>]
   \<and> sorted_wrt (<) [0::nat, 3]
   \<and> (\<exists>cs. mset cs = mset (headerCellsOf (tablesOf exampleLayout ! 0))
           \<and> sorted (map columnIndex cs) \<and> ['''', ''Qty''] = map contentOrEmpty cs)
   \<and> glossary (deriveProductTableHints exampleLayout) =
       ''Table 1 with headers: , Qty'' @ glossarySeparator @ ''Table 4 with headers: ???''"
proof -
  let ?h = "\<lparr>tableIndex = 0, headers = ['''', ''Qty''], score = 1\<rparr>"
  have m: "?h \<in> set (hints (deriveProductTableHints exampleLayout))"
    by (simp add: example_hints)
  from tableHints_aligned_and_ordered [of exampleLayout] m
  have "\<exists>cs. mset cs = mset (headerCellsOf (tablesOf exampleLayout ! tableIndex ?h))
           \<and> sorted (map columnIndex cs) \<and> headers ?h = map contentOrEmpty cs"
    by blast
  then show ?thesis by (simp add: example_hints example_glossary)
qed

text \<open>
  C6, as stated, fails: a character outside \<open>[a-z0-9%]\<close> is not stripped but replaced by a
  space, so \<open>"T.V.A."\<close> becomes \<open>"t v a"\<close> where stripping gives \<open>"tva"\<close>.
\<close>

theorem norm_text_not_stripped: "norm_text ''T.V.A.'' \<noteq> normStripped ''T.V.A.''"
  by (simp add: normStripped_def norm_eval)

text \<open>
  C6, amended. \<open>norm\<close> returns the maximal runs of \<open>[a-z0-9%]\<close> of the lowercased text,
  joined by single spaces: every other character is replaced by a space, white space is
  collapsed and the ends are trimmed. The score counts the keyword groups of which some
  keyword occurs in the normalized form of some header.
\<close>

theorem norm_text_runs_joined:
  "norm_text t = join '' '' (tokens isHeaderChar (toLowerCase t))
   \<and> scoreHeader hs =
       length (filter (\<lambda>group. \<exists>h\<in>set hs. \<exists>g\<in>set group. sublist g (norm_text h)) HEADER_PATTERNS)"
  using norm_text_tokens scoreHeader_count by simp

theorem norm_text_runs_joined_witness:
  "norm_text ''Unit-Price (EUR)'' = ''unit price eur''
   \<and> join '' '' (tokens isHeaderChar (toLowerCase ''Unit-Price (EUR)'')) = ''unit price eur''
   \<and> scoreHeader [''T.V.A.'', ''Unit-Price (EUR)''] = 1
   \<and> length (filter (\<lambda>group. \<exists>h\<in>set [''T.V.A.'', ''Unit-Price (EUR)''].
                                \<exists>g\<in>set group. sublist g (norm_text h)) HEADER_PATTERNS) = 1"
proof -
  have a: "norm_text ''Unit-Price (EUR)'' = ''unit price eur''"
    by (simp add: norm_eval)
  have b: "scoreHeader [''T.V.A.'', ''Unit-Price (EUR)''] = 1"
    by (simp add: scoreHeader_def HEADER_PATTERNS_def norm_eval)
  from norm_text_runs_joined [of "''Unit-Price (EUR)''" "[''T.V.A.'', ''Unit-Price (EUR)'']"] a b
  show ?thesis by simp
qed
section \<open>Facts about the polling loop\<close>

lemma poll_requests_bounds:
  "k + 1 \<le> requests (poll cfg m sv a k ds ss)
   \<and> requests (poll cfg m sv a k ds ss) \<le> k + (m - a) + 1"
proof (induction cfg m sv a k ds ss rule: poll.induct)
  case (1 cfg m sv a k ds ss)
  show ?case
  proof (cases "sv k")
    case Throws
    then show ?thesis by (subst (1 2) poll.simps) simp
  next
    case (Reply ok st)
    show ?thesis
    proof (cases "ok \<and> st \<notin> set finalStatuses \<and> a < m")
      case True
      with 1 Reply have ih: "k + 1 + 1 \<le> requests (poll cfg m sv (a + 1) (k + 1) (ds @ [pollInterval cfg]) (ss @ [st]))
        \<and> requests (poll cfg m sv (a + 1) (k + 1) (ds @ [pollInterval cfg]) (ss @ [st])) \<le> k + 1 + (m - (a + 1)) + 1"
        by simp
      have e: "poll cfg m sv a k ds ss = poll cfg m sv (a + 1) (k + 1) (ds @ [pollInterval cfg]) (ss @ [st])"
        using True Reply by (subst poll.simps) simp
      show ?thesis unfolding e using ih True by arith
    next
      case False
      with Reply show ?thesis by (subst (1 2) poll.simps) auto
    qed
  qed
qed

lemma poll_delays:
  "delays (poll cfg m sv a k ds ss)
   = ds @ replicate (requests (poll cfg m sv a k ds ss) - (k + 1)) (pollInterval cfg)"
proof (induction cfg m sv a k ds ss rule: poll.induct)
  case (1 cfg m sv a k ds ss)
  show ?case
  proof (cases "sv k")
    case Throws
    then show ?thesis by (subst (1 2) poll.simps) simp
  next
    case (Reply ok st)
    show ?thesis
    proof (cases "ok \<and> st \<notin> set finalStatuses \<and> a < m")
      case True
      let ?next = "poll cfg m sv (a + 1) (k + 1) (ds @ [pollInterval cfg]) (ss @ [st])"
      from 1 Reply True
      have ih: "delays ?next = (ds @ [pollInterval cfg]) @ replicate (requests ?next - (k + 1 + 1)) (pollInterval cfg)"
        by simp
      have e: "poll cfg m sv a k ds ss = ?next"
        using True Reply by (subst poll.simps) simp
      have "k + 1 + 1 \<le> requests ?next" using poll_requests_bounds by blast
      then have "requests ?next - (k + 1) = Suc (requests ?next - (k + 1 + 1))" by arith
      with ih show ?thesis unfolding e by (simp add: replicate_app_Cons_same)
    next
      case False
      with Reply show ?thesis by (subst (1 2) poll.simps) auto
    qed
  qed
qed

lemma poll_stops_at_final:
  assumes "k \<le> i" and "i < requests (poll cfg m sv a k ds ss)"
    and "sv i = Reply True s" and "s \<in> set finalStatuses"
  shows "i = requests (poll cfg m sv a k ds ss) - 1 \<and> ending (poll cfg m sv a k ds ss) = Final s"
  using assms
proof (induction cfg m sv a k ds ss rule: poll.induct)
  case (1 cfg m sv a k ds ss)
  show ?case
  proof (cases "sv k")
    case Throws
    then have r: "poll cfg m sv a k ds ss = \<lparr>ending = Errored, requests = k + 1, delays = ds, seen = ss\<rparr>"
      by (subst poll.simps) simp
    with "1.prems" have "i = k" by simp
    with "1.prems" Throws show ?thesis by simp
  next
    case (Reply ok st)
    show ?thesis
    proof (cases "ok \<and> st \<notin> set finalStatuses \<and> a < m")
      case True
      let ?next = "poll cfg m sv (a + 1) (k + 1) (ds @ [pollInterval cfg]) (ss @ [st])"
      have e: "poll cfg m sv a k ds ss = ?next"
        using True Reply by (subst poll.simps) simp
      have "i \<noteq> k" using True Reply "1.prems" by auto
      with "1.prems" have ki: "k + 1 \<le> i" by simp
      from "1.prems" have lt: "i < requests ?next" unfolding e by simp
      from "1.IH" [OF Reply _ _ _ ki lt "1.prems"(3) "1.prems"(4)] True
      show ?thesis unfolding e by simp
    next
      case False
      with Reply have "requests (poll cfg m sv a k ds ss) = k + 1"
        by (subst poll.simps) auto
      with "1.prems" have ik: "i = k" by simp
      with "1.prems" Reply have "ok" "st = s" by simp_all
      with "1.prems" Reply have "poll cfg m sv a k ds ss
          = \<lparr>ending = Final s, requests = k + 1, delays = ds, seen = ss @ [s]\<rparr>"
        by (subst poll.simps) simp
      with ik show ?thesis by simp
    qed
  qed
qed

lemma poll_never_final:
  assumes "\<forall>i. \<exists>s. sv i = Reply True s \<and> s \<notin> set finalStatuses"
  shows "requests (poll cfg m sv a k ds ss) = k + (m - a) + 1
         \<and> ending (poll cfg m sv a k ds ss) = TimedOut"
  using assms
proof (induction cfg m sv a k ds ss rule: poll.induct)
  case (1 cfg m sv a k ds ss)
  from "1.prems" obtain st where st: "sv k = Reply True st" "st \<notin> set finalStatuses" by blast
  show ?case
  proof (cases "a < m")
    case True
    let ?next = "poll cfg m sv (a + 1) (k + 1) (ds @ [pollInterval cfg]) (ss @ [st])"
    have e: "poll cfg m sv a k ds ss = ?next"
      using True st by (subst poll.simps) simp
    from "1.IH" [OF st(1) _ st(2) True "1.prems"]
    have "requests ?next = k + 1 + (m - (a + 1)) + 1 \<and> ending ?next = TimedOut" by simp
    then show ?thesis unfolding e using True by arith
  next
    case False
    with st show ?thesis by (subst (1 2) poll.simps) simp
  qed
qed

text \<open>
  C7, as stated, fails: against a batch that stays in \<open>PROCESSING\<close> the loop issues 46
  requests under the default bound of 45, one after the initial delay and 45 scheduled
  again.
\<close>

theorem polling_issues_one_more:
  "requests (startBatchStatusPolling defaultConfig None alwaysProcessing) = 46
   \<and> maxPollAttempts defaultConfig = 45
   \<and> hd (delays (startBatchStatusPolling defaultConfig None alwaysProcessing)) = 2000
   \<and> pollInterval defaultConfig = 8000"
proof -
  have "\<forall>i. \<exists>s. alwaysProcessing i = Reply True s \<and> s \<notin> set finalStatuses"
    by (simp add: alwaysProcessing_def finalStatuses_def)
  from poll_never_final [OF this, of defaultConfig 45 0 0 "[2000]" "[]"]
  have "requests (poll defaultConfig 45 alwaysProcessing 0 0 [2000] []) = 46" by simp
  moreover have "delays (poll defaultConfig 45 alwaysProcessing 0 0 [2000] [])
     = [2000] @ replicate (requests (poll defaultConfig 45 alwaysProcessing 0 0 [2000] []) - (0 + 1)) (pollInterval defaultConfig)"
    by (rule poll_delays)
  ultimately show ?thesis
    by (simp add: startBatchStatusPolling_def effectiveMaxAttempts_def defaultConfig_def)
qed

text \<open>
  C7, amended. The loop stops on the first observation of a status in
  \<open>{COMPLETED, ERROR, SPLIT_PROPOSED, DATA_VALIDATION_PENDING}\<close>: a request that reads one
  is the last, and the run ends on that status. The first request is scheduled after
  2000 ms, every later one after the poll interval, and at most the effective bound
  (the argument \<open>maxAttempts\<close>, or \<open>maxPollAttempts\<close>, 45, without one) of later ones are
  scheduled; so the loop always terminates, after at most one request more than the bound.
\<close>

theorem polling_stops_and_is_bounded:
  assumes "autoRefreshEnabled cfg"
  shows "requests (startBatchStatusPolling cfg maxAttempts server)
           \<le> effectiveMaxAttempts cfg maxAttempts + 1
         \<and> delays (startBatchStatusPolling cfg maxAttempts server)
           = 2000 # replicate (requests (startBatchStatusPolling cfg maxAttempts server) - 1) (pollInterval cfg)
         \<and> (\<forall>i s. i < requests (startBatchStatusPolling cfg maxAttempts server)
                  \<and> server i = Reply True s \<and> s \<in> set finalStatuses
                \<longrightarrow> i = requests (startBatchStatusPolling cfg maxAttempts server) - 1
                    \<and> ending (startBatchStatusPolling cfg maxAttempts server) = Final s)
         \<and> effectiveMaxAttempts defaultConfig None = 45"
proof -
  let ?m = "effectiveMaxAttempts cfg maxAttempts"
  have e: "startBatchStatusPolling cfg maxAttempts server = poll cfg ?m server 0 0 [2000] []"
    using assms by (simp add: startBatchStatusPolling_def)
  have a: "requests (poll cfg ?m server 0 0 [2000] []) \<le> ?m + 1"
    using poll_requests_bounds [of 0 cfg ?m server 0 "[2000]" "[]"] by simp
  have b: "delays (poll cfg ?m server 0 0 [2000] [])
           = 2000 # replicate (requests (poll cfg ?m server 0 0 [2000] []) - 1) (pollInterval cfg)"
    using poll_delays [of cfg ?m server 0 0 "[2000]" "[]"] by simp
  have c: "\<forall>i s. i < requests (poll cfg ?m server 0 0 [2000] [])
                  \<and> server i = Reply True s \<and> s \<in> set finalStatuses
                \<longrightarrow> i = requests (poll cfg ?m server 0 0 [2000] []) - 1
                    \<and> ending (poll cfg ?m server 0 0 [2000] []) = Final s"
    using poll_stops_at_final [of 0 _ cfg ?m server 0 "[2000]" "[]"] by blast
  have d: "effectiveMaxAttempts defaultConfig None = 45"
    by (simp add: effectiveMaxAttempts_def defaultConfig_def)
  from a b c d show ?thesis unfolding e by blast
qed

lemma completedAtThird_run:
  "startBatchStatusPolling defaultConfig (Some 3) completedAtThird
   = \<lparr>ending = Final ''COMPLETED'', requests = 3, delays = [2000, 8000, 8000],
      seen = [''PROCESSING'', ''PROCESSING'', ''COMPLETED'']\<rparr>"
  by (simp add: startBatchStatusPolling_def effectiveMaxAttempts_def defaultConfig_def
      completedAtThird_def finalStatuses_def poll.simps)

theorem polling_stops_and_is_bounded_witness:
  "autoRefreshEnabled defaultConfig
   \<and> requests (startBatchStatusPolling defaultConfig (Some 3) completedAtThird) = 3
   \<and> 3 \<le> effectiveMaxAttempts defaultConfig (Some 3) + 1
   \<and> delays (startBatchStatusPolling defaultConfig (Some 3) completedAtThird) = [2000, 8000, 8000]
   \<and> completedAtThird 2 = Reply True ''COMPLETED'' \<and> ''COMPLETED'' \<in> set finalStatuses
   \<and> ending (startBatchStatusPolling defaultConfig (Some 3) completedAtThird) = Final ''COMPLETED''"
proof -
  have a: "autoRefreshEnabled defaultConfig" by (simp add: defaultConfig_def)
  have r: "requests (startBatchStatusPolling defaultConfig (Some 3) completedAtThird) = 3"
    by (simp add: completedAtThird_run)
  have s: "completedAtThird 2 = Reply True ''COMPLETED''" by (simp add: completedAtThird_def)
  have f: "''COMPLETED'' \<in> set finalStatuses" by (simp add: finalStatuses_def)
  note t = polling_stops_and_is_bounded [OF a, of "Some 3" completedAtThird]
  from t r have b: "3 \<le> effectiveMaxAttempts defaultConfig (Some 3) + 1" by simp
  note c = t [THEN conjunct2, THEN conjunct2, THEN conjunct1, THEN spec, THEN spec, THEN mp]
  have "2 < requests (startBatchStatusPolling defaultConfig (Some 3) completedAtThird)
        \<and> completedAtThird 2 = Reply True ''COMPLETED'' \<and> ''COMPLETED'' \<in> set finalStatuses"
    using r s f by simp
  from c [OF this]
  have e: "ending (startBatchStatusPolling defaultConfig (Some 3) completedAtThird) = Final ''COMPLETED''"
    by simp
  from t r have d: "delays (startBatchStatusPolling defaultConfig (Some 3) completedAtThird)
      = 2000 # replicate (3 - 1) (pollInterval defaultConfig)" by simp
  then have "delays (startBatchStatusPolling defaultConfig (Some 3) completedAtThird) = [2000, 8000, 8000]"
    by (simp add: defaultConfig_def numeral_2_eq_2)
  with a r b s f e show ?thesis by blast
qed
section \<open>Facts about the API router\<close>

lemmas lower_eval = toLowerCase_def lowerChar_def upperChars_def lowerChars_def

text \<open>The literals of the routes and of the requests below, in lower case.\<close>

lemma lower_literals:
  "toLowerCase ''upload'' = ''upload''"
  "toLowerCase ''batches'' = ''batches''"
  "toLowerCase ''storage'' = ''storage''"
  "toLowerCase ''stats'' = ''stats''"
  "toLowerCase ''files'' = ''files''"
  "toLowerCase ''pdf'' = ''pdf''"
  "toLowerCase ''process'' = ''process''"
  "toLowerCase ''status'' = ''status''"
  "toLowerCase ''validate-splits'' = ''validate-splits''"
  "toLowerCase ''splits'' = ''splits''"
  "toLowerCase ''extract-data'' = ''extract-data''"
  "toLowerCase ''extracted-data'' = ''extracted-data''"
  "toLowerCase ''extract-invoice'' = ''extract-invoice''"
  "toLowerCase ''health'' = ''health''"
  "toLowerCase ''extract'' = ''extract''"
  "toLowerCase ''extract-pdf'' = ''extract-pdf''"
  "toLowerCase ''validate-data'' = ''validate-data''"
  "toLowerCase ''validation-summary'' = ''validation-summary''"
  "toLowerCase ''export'' = ''export''"
  "toLowerCase ''test-extract'' = ''test-extract''"
  "toLowerCase ''Batches'' = ''batches''"
  "toLowerCase ''EXTRACT-DATA'' = ''extract-data''"
  "toLowerCase ''Extract-Invoice'' = ''extract-invoice''"
  by (simp_all add: lower_eval)

lemmas route_eval = apiRoutes_def splitOnly_def lower_literals

text \<open>
  The two routes that carry the \<open>SPLIT_ONLY\<close> test answer \<open>archived_feature\<close> for every
  batch id while the toggle is set, and call their controller method otherwise.
\<close>

lemma gated_routes:
  assumes "b \<noteq> []"
  shows "dispatch env apiRoutes POST [''batches'', b, ''extract-data'']
           = (if splitOnly env then ArchivedFeature ''data extraction''
              else Runs ''processingController.extractInvoiceData'')"
    and "dispatch env apiRoutes GET [''batches'', b, ''extracted-data'']
           = (if splitOnly env then ArchivedFeature ''extracted data retrieval''
              else Runs ''processingController.getExtractedData'')"
  using assms by (simp_all add: apiRoutes_def lower_literals)

text \<open>The same requests written in capitals and with a trailing slash reach the same routes.\<close>

lemma routes_case_and_slash:
  "dispatch (Some ''1'') apiRoutes POST [''Batches'', ''b1'', ''EXTRACT-DATA'', '''']
     = ArchivedFeature ''data extraction''"
  "dispatch (Some ''1'') apiRoutes POST [''batches'', ''b1'', ''Extract-Invoice'', ''0'', '''']
     = Runs ''processingController.extractSingleInvoice''"
  by (simp_all add: route_eval)

text \<open>
  C3. With \<open>SPLIT_ONLY\<close> set to \<open>true\<close>, the request
  \<open>POST /batches/b1/extract-invoice/0\<close> is not answered by \<open>archived_feature\<close>: it runs
  \<open>extractSingleInvoice\<close>. So do \<open>POST /extract\<close> and \<open>POST /extract-pdf\<close>, which run
  \<open>extractFromLayout\<close>, where \<open>POST /batches/b1/extract-data\<close> is answered by
  \<open>archived_feature\<close>.
\<close>

theorem splitOnly_extractInvoice_runs:
  "splitOnly (Some ''true'')
   \<and> dispatch (Some ''true'') apiRoutes POST [''batches'', ''b1'', ''extract-invoice'', ''0'']
       = Runs ''processingController.extractSingleInvoice''
   \<and> dispatch (Some ''true'') apiRoutes POST [''extract''] = Runs ''extractFromLayout''
   \<and> dispatch (Some ''true'') apiRoutes POST [''extract-pdf''] = Runs ''extractFromLayout''
   \<and> dispatch (Some ''true'') apiRoutes POST [''batches'', ''b1'', ''extract-data'']
       = ArchivedFeature ''data extraction''"
  by (simp add: route_eval)
end
